theory Spec2Isabelle
  imports Main
begin

section \<open>JavaScript strings\<close>

text \<open>
  A JavaScript string is modelled as a list of 8-bit characters, one per code unit, so
  the model covers text whose code units are below 256. The helper functions below are
  the parts of the String and Array prototypes that \<^verbatim>\<open>ProjectScanner\<close> calls.
\<close>

definition startsWith :: "string \<Rightarrow> string \<Rightarrow> bool" where
  "startsWith s p = (take (length p) s = p)"

definition toLowerChar :: "char \<Rightarrow> char" where
  "toLowerChar c =
     (let n = (of_char c :: nat)
      in if (65 \<le> n \<and> n \<le> 90) \<or> (192 \<le> n \<and> n \<le> 222 \<and> n \<noteq> 215)
         then char_of (n + 32) else c)"

definition toLowerCase :: "string \<Rightarrow> string" where
  "toLowerCase s = map toLowerChar s"

fun split_on :: "char \<Rightarrow> string \<Rightarrow> string list" where
  "split_on sep [] = [[]]"
| "split_on sep (c # cs) =
     (if c = sep then [] # split_on sep cs
      else (case split_on sep cs of
              [] \<Rightarrow> [[c]]
            | x # xs \<Rightarrow> (c # x) # xs))"

fun join_with :: "string \<Rightarrow> string list \<Rightarrow> string" where
  "join_with sep [] = []"
| "join_with sep [x] = x"
| "join_with sep (x # y # ys) = x @ sep @ join_with sep (y # ys)"

definition replace_dots :: "string \<Rightarrow> string" where
  "replace_dots s = map (\<lambda>c. if c = CHR ''.'' then CHR ''/'' else c) s"

section \<open>The POSIX functions of Node's path module\<close>

text \<open>
  \<^verbatim>\<open>path.join\<close>, \<^verbatim>\<open>path.resolve\<close>, \<^verbatim>\<open>path.relative\<close>, \<^verbatim>\<open>path.dirname\<close> and
  \<^verbatim>\<open>path.extname\<close> as Node computes them on a POSIX system, where the separator is
  the slash. Node works on the characters of a path; the functions below work on its
  segments.

  \<^verbatim>\<open>normalizeString\<close> of Node's \<^verbatim>\<open>path\<close> module, on the segments between
  slashes: empty segments and \<^verbatim>\<open>.\<close> are dropped, \<^verbatim>\<open>..\<close> removes the segment before
  it, and is kept only where there is none to remove and \<open>allowAboveRoot\<close> holds.
\<close>

fun normalizeString :: "bool \<Rightarrow> string list \<Rightarrow> string list \<Rightarrow> string list" where
  "normalizeString allowAboveRoot res [] = res"
| "normalizeString allowAboveRoot res (seg # segs) =
     (if seg = [] \<or> seg = ''.'' then normalizeString allowAboveRoot res segs
      else if seg = ''..'' then
        (if res \<noteq> [] \<and> last res \<noteq> ''..''
           then normalizeString allowAboveRoot (butlast res) segs
         else if allowAboveRoot
           then normalizeString allowAboveRoot (res @ [''..'']) segs
         else normalizeString allowAboveRoot res segs)
      else normalizeString allowAboveRoot (res @ [seg]) segs)"

definition isAbsolute :: "string \<Rightarrow> bool" where
  "isAbsolute p = (case p of [] \<Rightarrow> False | c # _ \<Rightarrow> c = CHR ''/'')"

definition path_normalize :: "string \<Rightarrow> string" where
  "path_normalize p =
     (if p = [] then ''.''
      else
        (let trailingSeparator = (last p = CHR ''/'');
             q = join_with ''/'' (normalizeString (\<not> isAbsolute p) [] (split_on CHR ''/'' p))
         in if q = [] then
              (if isAbsolute p then ''/'' else if trailingSeparator then ''./'' else ''.'')
            else (if isAbsolute p then ''/'' else []) @ q
                 @ (if trailingSeparator then ''/'' else [])))"

definition path_join :: "string list \<Rightarrow> string" where
  "path_join args =
     (let joined = join_with ''/'' (filter (\<lambda>a. a \<noteq> []) args)
      in if joined = [] then ''.'' else path_normalize joined)"

text \<open>
  \<^verbatim>\<open>path.resolve\<close> reads its arguments from the right until one is absolute, and
  falls back on the working directory of the process, here the parameter \<open>cwd\<close>.
\<close>

fun resolve_loop :: "string \<Rightarrow> string list \<Rightarrow> string \<Rightarrow> string \<times> bool" where
  "resolve_loop cwd [] acc =
     (if cwd = [] then (acc, False) else (cwd @ ''/'' @ acc, isAbsolute cwd))"
| "resolve_loop cwd (p # ps) acc =
     (if p = [] then resolve_loop cwd ps acc
      else if isAbsolute p then (p @ ''/'' @ acc, True)
      else resolve_loop cwd ps (p @ ''/'' @ acc))"

definition path_resolve :: "string \<Rightarrow> string list \<Rightarrow> string" where
  "path_resolve cwd args =
     (case resolve_loop cwd (rev args) [] of
        (resolvedPath, resolvedAbsolute) \<Rightarrow>
          (let q = join_with ''/''
                     (normalizeString (\<not> resolvedAbsolute) [] (split_on CHR ''/'' resolvedPath))
           in if resolvedAbsolute then ''/'' @ q
              else if q \<noteq> [] then q else ''.''))"

fun strip_common :: "string list \<Rightarrow> string list \<Rightarrow> string list \<times> string list" where
  "strip_common (x # xs) (y # ys) =
     (if x = y then strip_common xs ys else (x # xs, y # ys))"
| "strip_common xs ys = (xs, ys)"

text \<open>
  \<^verbatim>\<open>path.relative\<close>: both paths are resolved, their common leading segments are
  dropped, and the result climbs out of what is left of \<open>from\<close> and descends into what
  is left of \<open>to\<close>.
\<close>

definition path_relative :: "string \<Rightarrow> string \<Rightarrow> string \<Rightarrow> string" where
  "path_relative cwd from to =
     (if from = to then []
      else
        (let f = path_resolve cwd [from]; t = path_resolve cwd [to]
         in if f = t then []
            else (case strip_common (filter (\<lambda>a. a \<noteq> []) (split_on CHR ''/'' f))
                                    (filter (\<lambda>a. a \<noteq> []) (split_on CHR ''/'' t)) of
                    (fs, ts) \<Rightarrow> join_with ''/'' (replicate (length fs) ''..'' @ ts))))"

text \<open>
  \<^verbatim>\<open>path.dirname\<close>: the path up to the last slash that is not at its end; the first
  character of the path is not looked at.
\<close>

definition path_dirname :: "string \<Rightarrow> string" where
  "path_dirname p =
     (if p = [] then ''.''
      else
        (let r = dropWhile (\<lambda>c. c \<noteq> CHR ''/'')
                   (dropWhile (\<lambda>c. c = CHR ''/'') (rev (tl p)))
         in if r = [] then (if isAbsolute p then ''/'' else ''.'')
            else if isAbsolute p \<and> length r = 1 then ''//''
            else take (length r) p))"

text \<open>
  \<^verbatim>\<open>path.extname\<close>: from the last dot of the last segment to its end, and empty when
  the segment has no dot, when its last dot is its first character, or when it is
  \<^verbatim>\<open>..\<close>.
\<close>

definition path_extname :: "string \<Rightarrow> string" where
  "path_extname p =
     (let base = rev (takeWhile (\<lambda>c. c \<noteq> CHR ''/'')
                        (dropWhile (\<lambda>c. c = CHR ''/'') (rev p)));
          ext = rev (takeWhile (\<lambda>c. c \<noteq> CHR ''.'') (rev base))
      in if CHR ''.'' \<notin> set base then []
         else if length base = length ext + 1 then []
         else if base = ''..'' then []
         else CHR ''.'' # ext)"

section \<open>Regular expressions\<close>

text \<open>
  The scanner finds imports with three regular expression literals. They are kept as
  data: a regular expression is the list of its alternatives, an alternative is a list
  of items, and \<open>matchItems\<close> is the backtracking matcher of ECMAScript for the items
  these literals use. \<open>Plus\<close> is the greedy \<^verbatim>\<open>+\<close> and \<open>LazyStar\<close> the lazy \<^verbatim>\<open>*?\<close>
  of a character class; \<open>GroupOpen\<close> and \<open>GroupClose\<close> are the parentheses of a
  numbered capture group; \<open>LineStart\<close> is \<^verbatim>\<open>^\<close> under the \<^verbatim>\<open>m\<close> flag.
\<close>

datatype cclass = Space | Word | AnyChar | Quote

definition isLineTerminator :: "char \<Rightarrow> bool" where
  "isLineTerminator c = (c \<in> set [CHR 0x0A, CHR 0x0D])"

fun in_class :: "cclass \<Rightarrow> char \<Rightarrow> bool" where
  "in_class Space c =
     (c \<in> set [CHR 0x09, CHR 0x0A, CHR 0x0B, CHR 0x0C, CHR 0x0D, CHR 0x20, CHR 0xA0])"
| "in_class Word c =
     (c \<in> set ''abcdefghijklmnopqrstuvwxyzABCDEFGHIJKLMNOPQRSTUVWXYZ0123456789_'')"
| "in_class AnyChar c = (\<not> isLineTerminator c)"
| "in_class Quote c = (c \<in> set [CHR 0x27, CHR 0x22])"

datatype item =
    Lit string
  | Cls cclass
  | Plus cclass
  | LazyStar cclass
  | GroupOpen nat
  | GroupClose nat
  | LineStart

type_synonym captures = "nat \<Rightarrow> string option"

text \<open>
  \<open>matchItems items prev s opens caps\<close> matches \<open>items\<close> at the head of \<open>s\<close>, where
  \<open>prev\<close> is the character before \<open>s\<close> in the input (\<open>None\<close> at its start). The
  result is the captures, the last character consumed and the rest of the input.
\<close>

fun matchItems ::
  "item list \<Rightarrow> char option \<Rightarrow> string \<Rightarrow> captures \<Rightarrow> captures
     \<Rightarrow> (captures \<times> char option \<times> string) option" where
  "matchItems [] prev s opens caps = Some (caps, prev, s)"
| "matchItems (Lit l # k) prev s opens caps =
     (if startsWith s l
      then matchItems k (if l = [] then prev else Some (last l)) (drop (length l) s) opens caps
      else None)"
| "matchItems (Cls c # k) prev [] opens caps = None"
| "matchItems (Cls c # k) prev (x # xs) opens caps =
     (if in_class c x then matchItems k (Some x) xs opens caps else None)"
| "matchItems (Plus c # k) prev [] opens caps = None"
| "matchItems (Plus c # k) prev (x # xs) opens caps =
     (if in_class c x
      then (case matchItems (Plus c # k) (Some x) xs opens caps of
              Some r \<Rightarrow> Some r
            | None \<Rightarrow> matchItems k (Some x) xs opens caps)
      else None)"
| "matchItems (LazyStar c # k) prev [] opens caps = matchItems k prev [] opens caps"
| "matchItems (LazyStar c # k) prev (x # xs) opens caps =
     (case matchItems k prev (x # xs) opens caps of
        Some r \<Rightarrow> Some r
      | None \<Rightarrow>
          if in_class c x then matchItems (LazyStar c # k) (Some x) xs opens caps
          else None)"
| "matchItems (GroupOpen i # k) prev s opens caps =
     matchItems k prev s (opens(i \<mapsto> s)) caps"
| "matchItems (GroupClose i # k) prev s opens caps =
     (case opens i of
        None \<Rightarrow> matchItems k prev s opens caps
      | Some s0 \<Rightarrow> matchItems k prev s opens (caps(i \<mapsto> take (length s0 - length s) s0)))"
| "matchItems (LineStart # k) prev s opens caps =
     (case prev of
        None \<Rightarrow> matchItems k prev s opens caps
      | Some p \<Rightarrow> if isLineTerminator p then matchItems k prev s opens caps else None)"

type_synonym regex = "item list list"

fun matchAlternatives ::
  "regex \<Rightarrow> char option \<Rightarrow> string \<Rightarrow> (captures \<times> char option \<times> string) option" where
  "matchAlternatives [] prev s = None"
| "matchAlternatives (a # as) prev s =
     (case matchItems a prev s Map.empty Map.empty of
        Some r \<Rightarrow> Some r
      | None \<Rightarrow> matchAlternatives as prev s)"

text \<open>
  \<^verbatim>\<open>regex.exec(content)\<close> under the \<^verbatim>\<open>g\<close> flag: the leftmost match at or after
  \<^verbatim>\<open>lastIndex\<close>. The input from \<^verbatim>\<open>lastIndex\<close> on is \<open>s\<close>.
\<close>

fun regexExec ::
  "regex \<Rightarrow> char option \<Rightarrow> string \<Rightarrow> (captures \<times> char option \<times> string) option" where
  "regexExec re prev [] = matchAlternatives re prev []"
| "regexExec re prev (x # xs) =
     (case matchAlternatives re prev (x # xs) of
        Some r \<Rightarrow> Some r
      | None \<Rightarrow> regexExec re (Some x) xs)"

text \<open>
  The loop \<^verbatim>\<open>while ((match = regex.exec(content)) !== null)\<close>. Each match moves
  \<^verbatim>\<open>lastIndex\<close> to its end. A match that leaves \<^verbatim>\<open>lastIndex\<close> where it was is
  found again by every later call, so the loop of the source never ends: the result
  is \<open>None\<close>.
\<close>

function execLoop :: "regex \<Rightarrow> char option \<Rightarrow> string \<Rightarrow> captures list option" where
  "execLoop re prev s =
     (case regexExec re prev s of
        None \<Rightarrow> Some []
      | Some (caps, prev', s') \<Rightarrow>
          if length s' < length s
          then (case execLoop re prev' s' of
                  None \<Rightarrow> None
                | Some ms \<Rightarrow> Some (caps # ms))
          else None)"
  by pat_completeness auto
termination
  by (relation "measure (\<lambda>(re, prev, s). length s)") auto

text \<open>
  An alternative that starts with a non-empty literal, after \<^verbatim>\<open>^\<close> or not, cannot
  match the empty string.
\<close>

fun consuming :: "item list \<Rightarrow> bool" where
  "consuming (Lit l # k) = (l \<noteq> [])"
| "consuming (LineStart # k) = consuming k"
| "consuming items = False"

text \<open>
  The three literals of \<^verbatim>\<open>parseDependenciesFromContent\<close>, in the order of the source:
  for \<^verbatim>\<open>.ts .tsx .js .jsx\<close>
  \<^verbatim>\<open>/import\s+.*?from\s+['"](.*?)['"]|require\(['"](.*?)['"]\)|import\(['"](.*?)['"]\)/g\<close>,
  for \<^verbatim>\<open>.css .scss\<close>
  \<^verbatim>\<open>/@import\s+['"](.*?)['"]|url\(['"](.*?)['"]\)/g\<close>,
  and for \<^verbatim>\<open>.py\<close>
  \<^verbatim>\<open>/^import\s+(\w+)|^from\s+(\w+)\s+import/gm\<close>.
\<close>

definition scriptImportRegex :: regex where
  "scriptImportRegex =
     [ [Lit ''import'', Plus Space, LazyStar AnyChar, Lit ''from'', Plus Space,
        Cls Quote, GroupOpen 1, LazyStar AnyChar, GroupClose 1, Cls Quote],
       [Lit ''require('', Cls Quote, GroupOpen 2, LazyStar AnyChar, GroupClose 2,
        Cls Quote, Lit '')''],
       [Lit ''import('', Cls Quote, GroupOpen 3, LazyStar AnyChar, GroupClose 3,
        Cls Quote, Lit '')''] ]"

definition styleImportRegex :: regex where
  "styleImportRegex =
     [ [Lit ''@import'', Plus Space, Cls Quote, GroupOpen 1, LazyStar AnyChar,
        GroupClose 1, Cls Quote],
       [Lit ''url('', Cls Quote, GroupOpen 2, LazyStar AnyChar, GroupClose 2,
        Cls Quote, Lit '')''] ]"

definition pythonImportRegex :: regex where
  "pythonImportRegex =
     [ [LineStart, Lit ''import'', Plus Space, GroupOpen 1, Plus Word, GroupClose 1],
       [LineStart, Lit ''from'', Plus Space, GroupOpen 2, Plus Word, GroupClose 2,
        Plus Space, Lit ''import''] ]"

text \<open>
  \<^verbatim>\<open>a || b\<close> on values that are a string or \<^verbatim>\<open>undefined\<close> (\<open>None\<close>): the empty
  string and \<^verbatim>\<open>undefined\<close> are falsy.
\<close>

definition truthy :: "string option \<Rightarrow> bool" where
  "truthy v = (case v of None \<Rightarrow> False | Some s \<Rightarrow> s \<noteq> [])"

definition js_or :: "string option \<Rightarrow> string option \<Rightarrow> string option" where
  "js_or a b = (if truthy a then a else b)"

text \<open>
  Two more notions for the proofs about the Python pattern: a list of items that
  closes no group leaves the captures as they are, and a match whose first or second
  group is a non-empty word.
\<close>

fun noClose :: "item list \<Rightarrow> bool" where
  "noClose [] = True"
| "noClose (GroupClose i # k) = False"
| "noClose (x # k) = noClose k"

definition identifierCapture :: "captures \<Rightarrow> bool" where
  "identifierCapture m =
     (case js_or (m 1) (m 2) of
        None \<Rightarrow> False
      | Some w \<Rightarrow> w \<noteq> [] \<and> list_all (in_class Word) w)"

section \<open>The file system\<close>

text \<open>
  What the scanner reads of the world: the working directory of the process and the
  tree of file system objects below \<^verbatim>\<open>/\<close>.
  \<^item> A regular file carries the results of \<^verbatim>\<open>fs.promises.stat\<close> (its size) and of
    \<^verbatim>\<open>fs.promises.readFile\<close> on it.
  \<^item> A directory carries the error of \<^verbatim>\<open>fs.promises.readdir\<close>, if listing it fails,
    the error of looking a name up in it, if it cannot be searched, and its entries by
    name.
  \<^item> A symbolic link carries the object it points to, or nothing if it dangles.
  \<^item> \<open>Other\<close> is any other object (a socket, a device).
  \<^verbatim>\<open>Dirent\<close> reports a symbolic link and \<open>Other\<close> as neither a file nor a directory.
\<close>

datatype error = ENOENT | ENOTDIR | EACCES | EISDIR | EIO

datatype fsobj =
    File "error + nat" "error + string"
  | Dir "error option" "error option" "(string \<times> fsobj) list"
  | Symlink "fsobj option"
  | Other

record env =
  cwd :: string
  fsroot :: fsobj

fun isDirectory :: "fsobj \<Rightarrow> bool" where
  "isDirectory (Dir listing search entries) = True"
| "isDirectory obj = False"

fun isFile :: "fsobj \<Rightarrow> bool" where
  "isFile (File st rd) = True"
| "isFile obj = False"

fun fs_stat :: "fsobj \<Rightarrow> error + nat" where
  "fs_stat (File st rd) = st"
| "fs_stat obj = Inr 0"

fun fs_readFile :: "fsobj \<Rightarrow> error + string" where
  "fs_readFile (File st rd) = rd"
| "fs_readFile (Dir listing search entries) = Inl EISDIR"
| "fs_readFile obj = Inl EIO"

text \<open>
  The system calls behind \<^verbatim>\<open>readdir\<close>, \<^verbatim>\<open>stat\<close>, \<^verbatim>\<open>readFile\<close> and \<^verbatim>\<open>existsSync\<close>
  follow symbolic links, also at the last name of a path; a link that dangles gives
  \<^verbatim>\<open>ENOENT\<close>.
\<close>

fun follow :: "fsobj \<Rightarrow> error + fsobj" where
  "follow (Symlink None) = Inl ENOENT"
| "follow (Symlink (Some target)) = follow target"
| "follow obj = Inr obj"

text \<open>
  The object that the names of a path lead to. The first argument is the way from the
  object that has been reached up to \<^verbatim>\<open>/\<close>. A step is taken in a directory that can be
  searched: below anything else it gives \<^verbatim>\<open>ENOTDIR\<close>, in a directory that cannot be
  searched the error of the search, and for a name that the directory does not have
  \<^verbatim>\<open>ENOENT\<close>. \<^verbatim>\<open>.\<close> stays and \<^verbatim>\<open>..\<close> goes one object back on the way, at \<^verbatim>\<open>/\<close> to
  \<^verbatim>\<open>/\<close> itself.
\<close>

fun fs_walk :: "fsobj list \<Rightarrow> string list \<Rightarrow> error + fsobj" where
  "fs_walk [] segs = Inl ENOENT"
| "fs_walk (obj # up) [] = follow obj"
| "fs_walk (obj # up) (seg # segs) =
     (case follow obj of
        Inl err \<Rightarrow> Inl err
      | Inr (Dir listing search entries) \<Rightarrow>
          (case search of
             Some err \<Rightarrow> Inl err
           | None \<Rightarrow>
               if seg = ''.'' then fs_walk (obj # up) segs
               else if seg = ''..'' then fs_walk (if up = [] then [obj] else up) segs
               else (case map_of entries seg of
                       None \<Rightarrow> Inl ENOENT
                     | Some child \<Rightarrow> fs_walk (child # obj # up) segs))
      | Inr other \<Rightarrow> Inl ENOTDIR)"

text \<open>
  The object at a path, as the system resolves the string it is given: a path that
  does not begin with \<^verbatim>\<open>/\<close> is taken from the working directory, empty names are
  passed over, and a path that ends in \<^verbatim>\<open>/\<close> must lead to a directory. Nothing is at
  the empty path.
\<close>

definition fs_lookup :: "env \<Rightarrow> string \<Rightarrow> error + fsobj" where
  "fs_lookup e p =
     (if p = [] then Inl ENOENT
      else (case fs_walk [fsroot e]
                   (filter (\<lambda>a. a \<noteq> [])
                      (split_on CHR ''/'' (if startsWith p ''/'' then p else cwd e @ ''/'' @ p))) of
              Inl err \<Rightarrow> Inl err
            | Inr obj \<Rightarrow>
                if last p = CHR ''/'' \<and> \<not> isDirectory obj then Inl ENOTDIR else Inr obj))"

text \<open>
  \<^verbatim>\<open>fs.existsSync\<close>: whether the path can be resolved. It finds directories and other
  objects as well as files, and it does not find a file whose \<^verbatim>\<open>stat\<close> fails.
\<close>

definition existsSync :: "env \<Rightarrow> string \<Rightarrow> bool" where
  "existsSync e p =
     (case fs_lookup e p of
        Inl err \<Rightarrow> False
      | Inr (File st rd) \<Rightarrow> \<not> isl st
      | Inr obj \<Rightarrow> True)"

text \<open>
  An entry of a directory as the system calls on its path see it: below a directory
  that cannot be searched, \<^verbatim>\<open>stat\<close> and \<^verbatim>\<open>readFile\<close> of a file fail with the error of
  the search.
\<close>

fun reached :: "error option \<Rightarrow> fsobj \<Rightarrow> fsobj" where
  "reached (Some err) (File st rd) = File (Inl err) (Inl err)"
| "reached search obj = obj"

section \<open>The scanner\<close>

text \<open>
  The interfaces \<^verbatim>\<open>Node\<close>, \<^verbatim>\<open>Link\<close> and \<^verbatim>\<open>GraphData\<close> of \<^verbatim>\<open>types/index.ts\<close>, with
  the fields that the scanner sets. The fields \<^verbatim>\<open>id\<close>, \<^verbatim>\<open>name\<close>, \<^verbatim>\<open>type\<close>,
  \<^verbatim>\<open>size\<close>, \<^verbatim>\<open>preview\<close>, \<^verbatim>\<open>source\<close> and \<^verbatim>\<open>target\<close> carry the name of their
  interface in front, and \<^verbatim>\<open>nodes\<close> and \<^verbatim>\<open>links\<close> of \<^verbatim>\<open>GraphData\<close> the word graph,
  since a record field is a constant of the theory.
\<close>

record node =
  node_id :: string
  node_name :: string
  node_type :: string
  node_size :: nat
  node_preview :: string

record link =
  link_source :: string
  link_target :: string

record GraphData =
  graph_nodes :: "node list"
  graph_links :: "link list"

text \<open>
  The fields of \<^verbatim>\<open>ProjectScanner\<close>. \<open>ig\<close> is the matcher that the constructor builds
  from \<^verbatim>\<open>.gitignore\<close> with the \<^verbatim>\<open>ignore\<close> package: here any predicate on relative
  paths.
\<close>

record scanner =
  workspaceRoot :: string
  visitedFiles :: "string set"
  nodes :: "node list"
  links :: "link list"
  ig :: "string \<Rightarrow> bool"

definition fileExists :: "env \<Rightarrow> scanner \<Rightarrow> string \<Rightarrow> bool" where
  "fileExists e s relativePath = existsSync e (path_join [workspaceRoot s, relativePath])"

definition supportedExtensions :: "string list" where
  "supportedExtensions =
     [''.ts'', ''.tsx'', ''.js'', ''.jsx'', ''.css'', ''.scss'',
      ''.html'', ''.py'', ''.java'', ''.c'', ''.cpp'', ''.h'',
      ''.json'', ''.md'', ''.go'', ''.rs'', ''.php'']"

definition isCodeFile :: "string \<Rightarrow> bool" where
  "isCodeFile filename = (toLowerCase (path_extname filename) \<in> set supportedExtensions)"

text \<open>
  The first part of \<^verbatim>\<open>parseDependenciesFromContent\<close>: the import strings of a file,
  by its extension. An entry is \<open>None\<close> where the source pushes \<^verbatim>\<open>undefined\<close>. The
  result is \<open>None\<close> where the \<^verbatim>\<open>while\<close> loop of the source would not end.
\<close>

definition extractImports :: "string \<Rightarrow> string \<Rightarrow> string option list option" where
  "extractImports ext content =
     (if ext \<in> set [''.ts'', ''.tsx'', ''.js'', ''.jsx''] then
        map_option (map (\<lambda>m. js_or (js_or (m 1) (m 2)) (m 3)))
          (execLoop scriptImportRegex None content)
      else if ext \<in> set [''.css'', ''.scss''] then
        map_option (map (\<lambda>m. js_or (m 1) (m 2)))
          (execLoop styleImportRegex None content)
      else if ext = ''.py'' then
        map_option (map (\<lambda>m. js_or (m 1) (m 2)))
          (execLoop pythonImportRegex None content)
      else Some [])"

definition probeExtensions :: "string list" where
  "probeExtensions =
     [''.ts'', ''.tsx'', ''.js'', ''.jsx'', ''.css'', ''.scss'', ''/index.ts'', ''/index.js'']"

text \<open>
  The inner \<^verbatim>\<open>for (const e of extensions)\<close> loop. The result is the list of paths
  passed to \<^verbatim>\<open>fileExists\<close>, in order, and the value of \<^verbatim>\<open>targetRelativePath\<close>
  after the loop.
\<close>

fun probeLoop ::
  "(string \<Rightarrow> bool) \<Rightarrow> string \<Rightarrow> string list \<Rightarrow> string list \<times> string" where
  "probeLoop ex target [] = ([], target)"
| "probeLoop ex target (e # es) =
     (if ex (target @ e) then ([target @ e], target @ e)
      else (case probeLoop ex target es of
              (probed, t) \<Rightarrow> ((target @ e) # probed, t)))"

text \<open>
  The body of the loop over \<^verbatim>\<open>importPaths\<close>, for one import string. The result is
  the list of paths passed to \<^verbatim>\<open>fileExists\<close>, in order, and the links pushed.
\<close>

definition resolveImport ::
  "env \<Rightarrow> scanner \<Rightarrow> string \<Rightarrow> string \<Rightarrow> string \<Rightarrow> string option
     \<Rightarrow> string list \<times> link list" where
  "resolveImport e s dir ext relativeId importPath =
     (if \<not> truthy importPath then ([], [])
      else
        (let ip = (case importPath of Some v \<Rightarrow> v | None \<Rightarrow> [])
         in if startsWith ip ''.'' then
              (let absoluteImportPath = path_resolve (cwd e) [dir, ip];
                   target0 = path_relative (cwd e) (workspaceRoot s) absoluteImportPath;
                   (probed, target) =
                     (if \<not> fileExists e s target0
                      then probeLoop (fileExists e s) target0 probeExtensions
                      else ([], target0))
               in if startsWith target ''..'' then (target0 # probed, [])
                  else if fileExists e s target
                    then (target0 # probed @ [target],
                          [\<lparr>link_source = relativeId, link_target = target\<rparr>])
                  else (target0 # probed @ [target], []))
            else if ext = ''.py'' then
              (let possiblePyFile = replace_dots ip @ ''.py''
               in if fileExists e s possiblePyFile
                  then ([possiblePyFile],
                        [\<lparr>link_source = relativeId, link_target = possiblePyFile\<rparr>])
                  else ([possiblePyFile], []))
            else ([], [])))"

definition parseDependenciesFromContent ::
  "env \<Rightarrow> scanner \<Rightarrow> string \<Rightarrow> string \<Rightarrow> string \<Rightarrow> scanner option" where
  "parseDependenciesFromContent e s content filePath relativeId =
     (let dir = path_dirname filePath;
          ext = toLowerCase (path_extname filePath)
      in case extractImports ext content of
           None \<Rightarrow> None
         | Some importPaths \<Rightarrow>
             Some (s\<lparr>links := links s
                      @ concat (map (\<lambda>ip. snd (resolveImport e s dir ext relativeId ip))
                                    importPaths)\<rparr>))"

text \<open>
  \<^verbatim>\<open>processFile\<close>: \<open>obj\<close> is the entry that \<^verbatim>\<open>readdir\<close> listed under \<open>fileName\<close>,
  on which \<^verbatim>\<open>stat\<close> and \<^verbatim>\<open>readFile\<close> of \<open>fullPath\<close> act. Both errors are caught.
\<close>

definition processFile ::
  "env \<Rightarrow> scanner \<Rightarrow> string \<Rightarrow> string \<Rightarrow> string \<Rightarrow> fsobj \<Rightarrow> scanner option" where
  "processFile e s fullPath relativePath fileName obj =
     (case fs_stat obj of
        Inl err \<Rightarrow> Some s
      | Inr sz \<Rightarrow>
          (case fs_readFile obj of
             Inl err \<Rightarrow> Some s
           | Inr content \<Rightarrow>
               (let preview = join_with [CHR 0x0A] (take 10 (split_on (CHR 0x0A) content))
                in parseDependenciesFromContent e
                     (s\<lparr>nodes := nodes s
                          @ [\<lparr>node_id = relativePath, node_name = fileName,
                               node_type = path_extname fileName, node_size = sz,
                               node_preview = preview\<rparr>]\<rparr>)
                     content fullPath relativePath)))"

definition skippedNames :: "string list" where
  "skippedNames = [''node_modules'', ''dist'', ''out'', ''build'', ''target'', ''vendor'']"

text \<open>
  \<^verbatim>\<open>scanDirectory\<close>: \<open>obj\<close> is the object at \<open>dir\<close>. An error of \<^verbatim>\<open>readdir\<close> is not
  caught: it ends the loop and every enclosing call. \<open>search\<close> is the search error of
  the directory that is being listed: the paths of its entries pass through it, so with
  it \<^verbatim>\<open>readdir\<close> of a subdirectory fails, and so do the calls of \<^verbatim>\<open>processFile\<close>. The
  result is \<open>None\<close> where the source would not return.
\<close>

fun scanDirectory ::
    "env \<Rightarrow> string \<Rightarrow> fsobj \<Rightarrow> scanner \<Rightarrow> (error + scanner) option"
  and scanEntries ::
    "env \<Rightarrow> string \<Rightarrow> error option \<Rightarrow> (string \<times> fsobj) list \<Rightarrow> scanner
       \<Rightarrow> (error + scanner) option"
  where
  "scanDirectory e dir (Dir None search entries) s = scanEntries e dir search entries s"
| "scanDirectory e dir (Dir (Some err) search entries) s = Some (Inl err)"
| "scanDirectory e dir (File st rd) s = Some (Inl ENOTDIR)"
| "scanDirectory e dir Other s = Some (Inl ENOTDIR)"
| "scanDirectory e dir (Symlink None) s = Some (Inl ENOENT)"
| "scanDirectory e dir (Symlink (Some target)) s = scanDirectory e dir target s"
| "scanEntries e dir search [] s = Some (Inr s)"
| "scanEntries e dir search ((name, obj) # rest) s =
     (let fullPath = path_join [dir, name];
          relativePath = path_relative (cwd e) (workspaceRoot s) fullPath
      in if startsWith name ''.'' \<and> name \<noteq> ''.gitignore'' then scanEntries e dir search rest s
         else if name \<in> set skippedNames then scanEntries e dir search rest s
         else if ig s relativePath then scanEntries e dir search rest s
         else if isDirectory obj then
           (case search of
              Some err \<Rightarrow> Some (Inl err)
            | None \<Rightarrow>
                (case scanDirectory e fullPath obj s of
                   None \<Rightarrow> None
                 | Some (Inl err) \<Rightarrow> Some (Inl err)
                 | Some (Inr s') \<Rightarrow> scanEntries e dir search rest s'))
         else if isFile obj then
           (if isCodeFile name then
              (case processFile e s fullPath relativePath name (reached search obj) of
                 None \<Rightarrow> None
               | Some s' \<Rightarrow> scanEntries e dir search rest s')
            else scanEntries e dir search rest s)
         else scanEntries e dir search rest s)"

text \<open>
  \<^verbatim>\<open>scan\<close>: the accumulators are reset, the root is listed and walked. The result
  is the graph and the scanner after the call, or the error that rejects the promise.
\<close>

definition scan :: "env \<Rightarrow> scanner \<Rightarrow> (error + GraphData \<times> scanner) option" where
  "scan e s =
     (let s0 = s\<lparr>nodes := [], links := [], visitedFiles := {}\<rparr>
      in case fs_lookup e (workspaceRoot s0) of
           Inl err \<Rightarrow> Some (Inl err)
         | Inr obj \<Rightarrow>
             (case scanDirectory e (workspaceRoot s0) obj s0 of
                None \<Rightarrow> None
              | Some (Inl err) \<Rightarrow> Some (Inl err)
              | Some (Inr s') \<Rightarrow>
                  Some (Inr (\<lparr>graph_nodes = nodes s', graph_links = links s'\<rparr>, s'))))"

section \<open>The walk, stated on the tree\<close>

text \<open>
  The definitions of this section are not translations of the source. They say, on the
  tree of the file system, which files a walk reaches and what each of them adds to
  the graph, and the theorems below compare the scanner with them.

  An entry is excluded by the dot rule, by the list of directory names or by the
  ignore matcher.
\<close>

definition excludedEntry ::
  "env \<Rightarrow> string \<Rightarrow> (string \<Rightarrow> bool) \<Rightarrow> string \<Rightarrow> string \<Rightarrow> bool" where
  "excludedEntry e root igf dir name =
     ((startsWith name ''.'' \<and> name \<noteq> ''.gitignore'')
      \<or> name \<in> set skippedNames
      \<or> igf (path_relative (cwd e) root (path_join [dir, name])))"

record walked =
  w_fullPath :: string
  w_relativePath :: string
  w_name :: string
  w_obj :: fsobj

text \<open>
  The regular files that are not excluded, below directories that are not excluded, in
  the order of the listings, each as the calls on its path see it.
\<close>

fun walkEntries ::
  "env \<Rightarrow> string \<Rightarrow> (string \<Rightarrow> bool) \<Rightarrow> string \<Rightarrow> error option \<Rightarrow> (string \<times> fsobj) list
     \<Rightarrow> walked list" where
  "walkEntries e root igf dir search [] = []"
| "walkEntries e root igf dir search ((name, Dir err search' entries) # rest) =
     (if excludedEntry e root igf dir name then walkEntries e root igf dir search rest
      else walkEntries e root igf (path_join [dir, name]) search' entries
           @ walkEntries e root igf dir search rest)"
| "walkEntries e root igf dir search ((name, File st rd) # rest) =
     (if excludedEntry e root igf dir name then walkEntries e root igf dir search rest
      else \<lparr>w_fullPath = path_join [dir, name],
            w_relativePath = path_relative (cwd e) root (path_join [dir, name]),
            w_name = name, w_obj = reached search (File st rd)\<rparr>
           # walkEntries e root igf dir search rest)"
| "walkEntries e root igf dir search ((name, Symlink target) # rest) =
     walkEntries e root igf dir search rest"
| "walkEntries e root igf dir search ((name, Other) # rest) =
     walkEntries e root igf dir search rest"

text \<open>
  The error of the first directory of the walk that cannot be listed, if there is one:
  its own error of listing, or the search error of the directory it is in.
\<close>

fun listingError ::
  "env \<Rightarrow> string \<Rightarrow> (string \<Rightarrow> bool) \<Rightarrow> string \<Rightarrow> error option \<Rightarrow> (string \<times> fsobj) list
     \<Rightarrow> error option" where
  "listingError e root igf dir search [] = None"
| "listingError e root igf dir search ((name, Dir err search' entries) # rest) =
     (if excludedEntry e root igf dir name then listingError e root igf dir search rest
      else (case search of
              Some x \<Rightarrow> Some x
            | None \<Rightarrow>
                (case err of
                   Some x \<Rightarrow> Some x
                 | None \<Rightarrow>
                     (case listingError e root igf (path_join [dir, name]) search' entries of
                        Some x \<Rightarrow> Some x
                      | None \<Rightarrow> listingError e root igf dir search rest))))"
| "listingError e root igf dir search ((name, File st rd) # rest) =
     listingError e root igf dir search rest"
| "listingError e root igf dir search ((name, Symlink target) # rest) =
     listingError e root igf dir search rest"
| "listingError e root igf dir search ((name, Other) # rest) =
     listingError e root igf dir search rest"

definition readable :: "fsobj \<Rightarrow> bool" where
  "readable obj = (\<not> isl (fs_stat obj) \<and> \<not> isl (fs_readFile obj))"

definition statSize :: "fsobj \<Rightarrow> nat" where
  "statSize obj = (case fs_stat obj of Inl err \<Rightarrow> 0 | Inr sz \<Rightarrow> sz)"

definition fileContent :: "fsobj \<Rightarrow> string" where
  "fileContent obj = (case fs_readFile obj of Inl err \<Rightarrow> [] | Inr content \<Rightarrow> content)"

definition nodeOf :: "walked \<Rightarrow> node" where
  "nodeOf f =
     \<lparr>node_id = w_relativePath f, node_name = w_name f,
      node_type = path_extname (w_name f), node_size = statSize (w_obj f),
      node_preview = join_with [CHR 0x0A] (take 10 (split_on (CHR 0x0A) (fileContent (w_obj f))))\<rparr>"

text \<open>
  The links of one file: what \<open>parseDependenciesFromContent\<close> pushes for it on a
  scanner of the same root that has no links yet.
\<close>

definition linksOf :: "env \<Rightarrow> string \<Rightarrow> walked \<Rightarrow> link list" where
  "linksOf e root f =
     (case parseDependenciesFromContent e
             \<lparr>workspaceRoot = root, visitedFiles = {}, nodes = [], links = [],
              ig = (\<lambda>p. False)\<rparr>
             (fileContent (w_obj f)) (w_fullPath f) (w_relativePath f) of
        None \<Rightarrow> []
      | Some s' \<Rightarrow> links s')"

text \<open>An import string that begins with a dot: \<^verbatim>\<open>undefined\<close> does not.\<close>

definition relativeImport :: "string option \<Rightarrow> bool" where
  "relativeImport ip = (case ip of None \<Rightarrow> False | Some v \<Rightarrow> startsWith v ''.'')"

text \<open>The files that get a Node: allowed by extension, and both reads succeed.\<close>

definition accepted :: "walked \<Rightarrow> bool" where
  "accepted f = (isCodeFile (w_name f) \<and> readable (w_obj f))"

text \<open>The walk from the root of a scanner, and the error that ends it.\<close>

definition walkRoot :: "env \<Rightarrow> scanner \<Rightarrow> walked list" where
  "walkRoot e s =
     (case fs_lookup e (workspaceRoot s) of
        Inr (Dir None search entries) \<Rightarrow>
          walkEntries e (workspaceRoot s) (ig s) (workspaceRoot s) search entries
      | _ \<Rightarrow> [])"

definition scanError :: "env \<Rightarrow> scanner \<Rightarrow> error option" where
  "scanError e s =
     (case fs_lookup e (workspaceRoot s) of
        Inl err \<Rightarrow> Some err
      | Inr (Dir None search entries) \<Rightarrow>
          listingError e (workspaceRoot s) (ig s) (workspaceRoot s) search entries
      | Inr (Dir (Some err) search entries) \<Rightarrow> Some err
      | Inr obj \<Rightarrow> Some ENOTDIR)"

text \<open>The value that the promise of \<^verbatim>\<open>scan\<close> settles to.\<close>

definition scanResult :: "env \<Rightarrow> scanner \<Rightarrow> (error + GraphData) option" where
  "scanResult e s = map_option (map_sum id fst) (scan e s)"

section \<open>Example trees\<close>

text \<open>
  The scanner of the examples: the workspace is \<^verbatim>\<open>/proj\<close> and no \<^verbatim>\<open>.gitignore\<close>
  rule is loaded.
\<close>

definition exampleScanner :: scanner where
  "exampleScanner =
     \<lparr>workspaceRoot = ''/proj'', visitedFiles = {}, nodes = [], links = [],
      ig = (\<lambda>p. False)\<rparr>"

text \<open>
  \<^verbatim>\<open>/proj/main.py\<close> holds \<^verbatim>\<open>from pkg.sub import y\<close>, and \<^verbatim>\<open>/proj/pkg/sub.py\<close>
  exists.
\<close>

definition pythonTree :: env where
  "pythonTree =
     \<lparr>cwd = ''/'',
      fsroot = Dir None None
        [(''proj'', Dir None None
           [(''main.py'', File (Inr 21) (Inr ''from pkg.sub import y'')),
            (''pkg'', Dir None None
               [(''sub.py'', File (Inr 0) (Inr []))])])]\<rparr>"

text \<open>
  \<^verbatim>\<open>/proj/locked\<close> is a directory that cannot be listed, between two files that
  can be read.
\<close>

definition lockedTree :: env where
  "lockedTree =
     \<lparr>cwd = ''/'',
      fsroot = Dir None None
        [(''proj'', Dir None None
           [(''a.ts'', File (Inr 0) (Inr [])),
            (''locked'', Dir (Some EACCES) None []),
            (''b.ts'', File (Inr 0) (Inr []))])]\<rparr>"

text \<open>\<^verbatim>\<open>/proj/Foo.TS\<close>, an empty file.\<close>

definition upperCaseTree :: env where
  "upperCaseTree =
     \<lparr>cwd = ''/'',
      fsroot = Dir None None
        [(''proj'', Dir None None
           [(''Foo.TS'', File (Inr 0) (Inr []))])]\<rparr>"

text \<open>
  \<^verbatim>\<open>/proj/a.ts\<close> holds \<^verbatim>\<open>import x from './sub'\<close>, and of the candidates only
  \<^verbatim>\<open>/proj/sub/index.ts\<close> exists.
\<close>

definition indexTree :: env where
  "indexTree =
     \<lparr>cwd = ''/'',
      fsroot = Dir None None
        [(''proj'', Dir None None
           [(''a.ts'', File (Inr 21)
                        (Inr (''import x from '' @ [CHR 0x27] @ ''./sub'' @ [CHR 0x27]))),
            (''sub'', Dir None None
               [(''index.ts'', File (Inr 0) (Inr []))])])]\<rparr>"

text \<open>
  A project with excluded directories, a file without extension, a file of another
  extension, a file that cannot be read, and imports of four kinds in \<^verbatim>\<open>a.ts\<close>: of a
  sibling, of the file without extension, of a package, and of a file above the root.
\<close>

definition a_ts_content :: string where
  "a_ts_content =
     ''import b from '' @ [CHR 0x27] @ ''./b'' @ [CHR 0x27, CHR 0x0A]
     @ ''import r from '' @ [CHR 0x27] @ ''./README'' @ [CHR 0x27, CHR 0x0A]
     @ ''import x from '' @ [CHR 0x27] @ ''react'' @ [CHR 0x27, CHR 0x0A]
     @ ''import up from '' @ [CHR 0x27] @ ''../outside'' @ [CHR 0x27, CHR 0x0A]"

definition util_js_content :: string where
  "util_js_content = ''const a = require('' @ [CHR 0x27] @ ''../a'' @ [CHR 0x27] @ '')''"

definition projectTree :: env where
  "projectTree =
     \<lparr>cwd = ''/'',
      fsroot = Dir None None
        [(''outside.ts'', File (Inr 0) (Inr [])),
         (''proj'', Dir None None
           [(''.git'', Dir None None [(''config.json'', File (Inr 2) (Inr ''{}''))]),
            (''node_modules'', Dir None None [(''lib.js'', File (Inr 0) (Inr []))]),
            (''README'', File (Inr 5) (Inr ''hello'')),
            (''a.ts'', File (Inr 95) (Inr a_ts_content)),
            (''b.ts'', File (Inr 0) (Inr [])),
            (''broken.ts'', File (Inr 3) (Inl EACCES)),
            (''notes.txt'', File (Inr 4) (Inr ''todo'')),
            (''src'', Dir None None
               [(''util.JS'', File (Inr 25) (Inr util_js_content))])])]\<rparr>"

text \<open>The graph of that project.\<close>

definition projectGraph :: GraphData where
  "projectGraph =
     \<lparr>graph_nodes =
        [\<lparr>node_id = ''a.ts'', node_name = ''a.ts'', node_type = ''.ts'', node_size = 95,
          node_preview = a_ts_content\<rparr>,
         \<lparr>node_id = ''b.ts'', node_name = ''b.ts'', node_type = ''.ts'', node_size = 0,
          node_preview = []\<rparr>,
         \<lparr>node_id = ''src/util.JS'', node_name = ''util.JS'', node_type = ''.JS'',
          node_size = 25, node_preview = util_js_content\<rparr>],
      graph_links =
        [\<lparr>link_source = ''a.ts'', link_target = ''b.ts''\<rparr>,
         \<lparr>link_source = ''a.ts'', link_target = ''README''\<rparr>,
         \<lparr>link_source = ''src/util.JS'', link_target = ''a.ts''\<rparr>]\<rparr>"

text \<open>The files of that project that the walk reaches and the extension filter keeps.\<close>

definition project_a :: walked where
  "project_a =
     \<lparr>w_fullPath = ''/proj/a.ts'', w_relativePath = ''a.ts'', w_name = ''a.ts'',
      w_obj = File (Inr 95) (Inr a_ts_content)\<rparr>"

definition project_b :: walked where
  "project_b =
     \<lparr>w_fullPath = ''/proj/b.ts'', w_relativePath = ''b.ts'', w_name = ''b.ts'',
      w_obj = File (Inr 0) (Inr [])\<rparr>"

definition project_broken :: walked where
  "project_broken =
     \<lparr>w_fullPath = ''/proj/broken.ts'', w_relativePath = ''broken.ts'',
      w_name = ''broken.ts'', w_obj = File (Inr 3) (Inl EACCES)\<rparr>"

definition project_util :: walked where
  "project_util =
     \<lparr>w_fullPath = ''/proj/src/util.JS'', w_relativePath = ''src/util.JS'',
      w_name = ''util.JS'', w_obj = File (Inr 25) (Inr util_js_content)\<rparr>"

text \<open>
  \<^verbatim>\<open>/proj/a.ts\<close> imports the package \<^verbatim>\<open>react\<close> and the sibling \<^verbatim>\<open>./b\<close>, and
  \<^verbatim>\<open>/proj/main.py\<close> imports the module \<^verbatim>\<open>react\<close>; \<^verbatim>\<open>react.py\<close> and \<^verbatim>\<open>react.ts\<close> exist
  below the root.
\<close>

definition react_a_content :: string where
  "react_a_content =
     ''import x from '' @ [CHR 0x27] @ ''react'' @ [CHR 0x27, CHR 0x0A]
     @ ''import b from '' @ [CHR 0x27] @ ''./b'' @ [CHR 0x27, CHR 0x0A]"

definition react_c_content :: string where
  "react_c_content = ''const r = require('' @ [CHR 0x27] @ ''react'' @ [CHR 0x27] @ '')'' @ [CHR 0x0A]"

definition reactTree :: env where
  "reactTree =
     \<lparr>cwd = ''/'',
      fsroot = Dir None None
        [(''proj'', Dir None None
           [(''a.ts'', File (Inr 42) (Inr react_a_content)),
            (''b.ts'', File (Inr 0) (Inr [])),
            (''c.js'', File (Inr 27) (Inr react_c_content)),
            (''main.py'', File (Inr 12) (Inr ''import react'')),
            (''react.py'', File (Inr 0) (Inr [])),
            (''react.ts'', File (Inr 0) (Inr []))])]\<rparr>"

definition react_a :: walked where
  "react_a =
     \<lparr>w_fullPath = ''/proj/a.ts'', w_relativePath = ''a.ts'', w_name = ''a.ts'',
      w_obj = File (Inr 42) (Inr react_a_content)\<rparr>"

definition react_b :: walked where
  "react_b =
     \<lparr>w_fullPath = ''/proj/b.ts'', w_relativePath = ''b.ts'', w_name = ''b.ts'',
      w_obj = File (Inr 0) (Inr [])\<rparr>"

definition react_c :: walked where
  "react_c =
     \<lparr>w_fullPath = ''/proj/c.js'', w_relativePath = ''c.js'', w_name = ''c.js'',
      w_obj = File (Inr 27) (Inr react_c_content)\<rparr>"

definition react_main :: walked where
  "react_main =
     \<lparr>w_fullPath = ''/proj/main.py'', w_relativePath = ''main.py'', w_name = ''main.py'',
      w_obj = File (Inr 12) (Inr ''import react'')\<rparr>"

definition react_py :: walked where
  "react_py =
     \<lparr>w_fullPath = ''/proj/react.py'', w_relativePath = ''react.py'', w_name = ''react.py'',
      w_obj = File (Inr 0) (Inr [])\<rparr>"

definition react_ts :: walked where
  "react_ts =
     \<lparr>w_fullPath = ''/proj/react.ts'', w_relativePath = ''react.ts'', w_name = ''react.ts'',
      w_obj = File (Inr 0) (Inr [])\<rparr>"

text \<open>
  A tree with symbolic links and a directory that cannot be searched: \<^verbatim>\<open>/proj/lib\<close>
  and \<^verbatim>\<open>/alias\<close> are links to directories, \<^verbatim>\<open>/proj/dangling\<close> is a link to nothing,
  and below \<^verbatim>\<open>/proj/noexec\<close> and \<^verbatim>\<open>/closed\<close>, which can be listed, no path can be
  resolved.
\<close>

definition linked_a_content :: string where
  "linked_a_content =
     ''import x from '' @ [CHR 0x27] @ ''./lib/x'' @ [CHR 0x27, CHR 0x0A]
     @ ''import b from '' @ [CHR 0x27] @ ''./noexec/b'' @ [CHR 0x27, CHR 0x0A]
     @ ''import d from '' @ [CHR 0x27] @ ''./dangling'' @ [CHR 0x27, CHR 0x0A]"

definition linkedTree :: env where
  "linkedTree =
     \<lparr>cwd = ''/'',
      fsroot = Dir None None
        [(''alias'', Symlink (Some (Dir None None [(''x.ts'', File (Inr 0) (Inr []))]))),
         (''closed'', Dir None (Some EACCES)
           [(''y.ts'', File (Inr 0) (Inr [])),
            (''sub'', Dir None None [(''z.ts'', File (Inr 0) (Inr []))])]),
         (''proj'', Dir None None
           [(''a.ts'', File (Inr 78) (Inr linked_a_content)),
            (''lib'', Symlink (Some (Dir None None [(''x.ts'', File (Inr 0) (Inr []))]))),
            (''noexec'', Dir None (Some EACCES)
               [(''b.ts'', File (Inr 0) (Inr []))]),
            (''dangling'', Symlink None)])]\<rparr>"

section \<open>The library functions on examples\<close>

text \<open>The examples of the documentation of Node's \<^verbatim>\<open>path\<close> module.\<close>

lemma path_extname_examples:
  "path_extname ''index.html'' = ''.html''"
  "path_extname ''index.coffee.md'' = ''.md''"
  "path_extname ''index.'' = ''.''"
  "path_extname ''index'' = []"
  "path_extname ''.index'' = []"
  "path_extname ''.index.md'' = ''.md''"
  by code_simp+

lemma path_module_examples:
  "path_dirname ''/foo/bar/baz/asdf/quux'' = ''/foo/bar/baz/asdf''"
  "path_join [''/foo'', ''bar'', ''baz/asdf'', ''quux'', ''..''] = ''/foo/bar/baz/asdf''"
  "path_normalize ''/foo/bar//baz/asdf/quux/..'' = ''/foo/bar/baz/asdf''"
  "path_relative ''/'' ''/data/orandea/test/aaa'' ''/data/orandea/impl/bbb'' = ''../../impl/bbb''"
  "path_resolve ''/'' [''/foo/bar'', ''./baz''] = ''/foo/bar/baz''"
  "path_resolve ''/'' [''/foo/bar'', ''/tmp/file/''] = ''/tmp/file''"
  "path_resolve ''/home/myself/node'' [''wwwroot'', ''static_files/png/'', ''../gif/image.gif'']
     = ''/home/myself/node/wwwroot/static_files/gif/image.gif''"
  by code_simp+

text \<open>
  The three patterns on small inputs. In the second, the quotes of \<^verbatim>\<open>require\<close> are
  double quotes; in the last, the captured string is empty and the source pushes
  \<^verbatim>\<open>undefined\<close>.
\<close>

lemma extractImports_examples:
  "extractImports ''.ts''
     (''import a from '' @ [CHR 0x27] @ ''./a'' @ [CHR 0x27] @ ''; ''
      @ ''const b = require('' @ [CHR 0x22] @ ''./b'' @ [CHR 0x22] @ ''); ''
      @ ''import('' @ [CHR 0x27] @ ''./c'' @ [CHR 0x27] @ '')'')
     = Some [Some ''./a'', Some ''./b'', Some ''./c'']"
  "extractImports ''.scss''
     (''@import '' @ [CHR 0x27] @ ''./a.css'' @ [CHR 0x27] @ ''; ''
      @ ''b { background: url('' @ [CHR 0x27] @ ''img.png'' @ [CHR 0x27] @ '') }'')
     = Some [Some ''./a.css'', Some ''img.png'']"
  "extractImports ''.py''
     (''import os'' @ [CHR 0x0A] @ ''from pkg import y'' @ [CHR 0x0A]
      @ ''  import indented'' @ [CHR 0x0A] @ ''import pkg.sub'')
     = Some [Some ''os'', Some ''pkg'', Some ''pkg'']"
  "extractImports ''.md'' ''import os'' = Some []"
  "extractImports ''.js'' (''import a from '' @ [CHR 0x27, CHR 0x27]) = Some [None]"
  by code_simp+

text \<open>
  The file system on the tree with links: a path through a link to a directory is
  found, a file that cannot be reached and a dangling link are not; a root that is a
  link to a directory is scanned, a root below a regular file is not a directory, a
  root that is not there is missing. A directory that can be listed and not searched
  gives no Node for its files, and its subdirectory ends the scan. The path of the root
  is resolved as it is written: \<^verbatim>\<open>..\<close> below a regular file, below a name that is not
  there or in a directory that cannot be searched is an error.
\<close>

lemma file_system_examples:
  "existsSync linkedTree ''/proj/lib/x.ts''"
  "existsSync linkedTree ''/proj/lib''"
  "existsSync linkedTree ''/proj/noexec''"
  "\<not> existsSync linkedTree ''/proj/noexec/b.ts''"
  "\<not> existsSync linkedTree ''/proj/dangling''"
  "\<not> existsSync linkedTree ''/proj/a.ts/x''"
  "scanResult linkedTree (exampleScanner\<lparr>workspaceRoot := ''/alias''\<rparr>)
     = Some (Inr \<lparr>graph_nodes =
                    [\<lparr>node_id = ''x.ts'', node_name = ''x.ts'', node_type = ''.ts'',
                      node_size = 0, node_preview = []\<rparr>],
                  graph_links = []\<rparr>)"
  "scanResult linkedTree (exampleScanner\<lparr>workspaceRoot := ''/proj/a.ts/x''\<rparr>)
     = Some (Inl ENOTDIR)"
  "scanResult linkedTree (exampleScanner\<lparr>workspaceRoot := ''/proj/a.ts''\<rparr>)
     = Some (Inl ENOTDIR)"
  "scanResult linkedTree (exampleScanner\<lparr>workspaceRoot := ''/missing''\<rparr>)
     = Some (Inl ENOENT)"
  "map_option (map_sum id (\<lambda>g. (map node_id (graph_nodes g), graph_links g)))
     (scanResult linkedTree exampleScanner)
     = Some (Inr ([''a.ts''], [\<lparr>link_source = ''a.ts'', link_target = ''lib/x.ts''\<rparr>]))"
  "scanResult linkedTree (exampleScanner\<lparr>workspaceRoot := ''/proj/noexec''\<rparr>)
     = Some (Inr \<lparr>graph_nodes = [], graph_links = []\<rparr>)"
  "scanResult linkedTree (exampleScanner\<lparr>workspaceRoot := ''/closed''\<rparr>)
     = Some (Inl EACCES)"
  "scanResult linkedTree (exampleScanner\<lparr>workspaceRoot := ''/closed/sub''\<rparr>)
     = Some (Inl EACCES)"
  "\<not> existsSync linkedTree ''/closed/sub''"
  "\<not> existsSync linkedTree ''/proj/a.ts/''"
  "\<not> existsSync linkedTree ''/proj/a.ts/.''"
  "existsSync linkedTree ''proj/a.ts''"
  "scanResult linkedTree (exampleScanner\<lparr>workspaceRoot := ''/proj/a.ts/..''\<rparr>)
     = Some (Inl ENOTDIR)"
  "scanResult linkedTree (exampleScanner\<lparr>workspaceRoot := ''/missing/..''\<rparr>)
     = Some (Inl ENOENT)"
  "scanResult linkedTree (exampleScanner\<lparr>workspaceRoot := ''/closed/..''\<rparr>)
     = Some (Inl EACCES)"
  "scanResult linkedTree (exampleScanner\<lparr>workspaceRoot := ''/proj/''\<rparr>)
     = scanResult linkedTree exampleScanner"
  "scanResult linkedTree (exampleScanner\<lparr>workspaceRoot := ''proj''\<rparr>)
     = scanResult linkedTree exampleScanner"
  by code_simp+

section \<open>The import loops end\<close>

lemma matchItems_length:
  "matchItems items prev s opens caps = Some (caps', prev', s') \<Longrightarrow> length s' \<le> length s"
proof (induction items prev s opens caps arbitrary: caps' prev' s' rule: matchItems.induct)
  case (10 i k prev s opens caps)
  show ?case
  proof (cases "opens i")
    case None
    with "10.prems" have "matchItems k prev s opens caps = Some (caps', prev', s')"
      by simp
    then show ?thesis by (rule "10.IH"(1) [OF None])
  next
    case (Some s0)
    with "10.prems"
    have "matchItems k prev s opens (caps(i \<mapsto> take (length s0 - length s) s0))
            = Some (caps', prev', s')"
      by simp
    then show ?thesis by (rule "10.IH"(2) [OF Some])
  qed
next
  case (11 k prev s opens caps)
  show ?case
  proof (cases prev)
    case None
    with "11.prems" have "matchItems k prev s opens caps = Some (caps', prev', s')"
      by simp
    then show ?thesis by (rule "11.IH"(1) [OF None])
  next
    case (Some c)
    with "11.prems" have "isLineTerminator c"
      and "matchItems k prev s opens caps = Some (caps', prev', s')"
      by (simp_all split: if_splits)
    then show ?thesis by (rule "11.IH"(2) [OF Some])
  qed
qed (fastforce split: if_splits option.splits)+

lemma startsWith_drop_less:
  "startsWith s l \<Longrightarrow> l \<noteq> [] \<Longrightarrow> length (drop (length l) s) < length s"
  unfolding startsWith_def by (cases s) auto

lemma matchItems_consuming:
  "consuming items \<Longrightarrow> matchItems items prev s opens caps = Some (caps', prev', s')
     \<Longrightarrow> length s' < length s"
proof (induction items arbitrary: prev rule: consuming.induct)
  case (1 l k)
  from "1.prems" have sw: "startsWith s l" and ne: "l \<noteq> []"
    and m: "matchItems k (Some (last l)) (drop (length l) s) opens caps = Some (caps', prev', s')"
    by (auto split: if_splits)
  from matchItems_length [OF m] startsWith_drop_less [OF sw ne] show ?case by simp
next
  case (2 k)
  then show ?case by (auto split: option.splits if_splits)
qed simp_all

lemma matchAlternatives_consuming:
  "list_all consuming re \<Longrightarrow> matchAlternatives re prev s = Some (caps', prev', s')
     \<Longrightarrow> length s' < length s"
  by (induction re) (auto split: option.splits dest: matchItems_consuming)

lemma regexExec_consuming:
  "list_all consuming re \<Longrightarrow> regexExec re prev s = Some (caps', prev', s')
     \<Longrightarrow> length s' < length s"
proof (induction s arbitrary: prev)
  case Nil
  then show ?case by (auto dest: matchAlternatives_consuming)
next
  case (Cons x xs)
  then show ?case
    by (fastforce split: option.splits dest: matchAlternatives_consuming)
qed

declare execLoop.simps [simp del]

lemma execLoop_returns:
  "list_all consuming re \<Longrightarrow> \<exists>ms. execLoop re prev s = Some ms"
proof (induction re prev s rule: execLoop.induct)
  case (1 re prev s)
  show ?case
  proof (cases "regexExec re prev s")
    case None
    then show ?thesis by (subst execLoop.simps) simp
  next
    case (Some r)
    obtain caps p' s' where r: "r = (caps, p', s')" by (cases r) auto
    have lt: "length s' < length s"
      using regexExec_consuming [OF "1.prems"] Some r by blast
    have "\<exists>ms. execLoop re p' s' = Some ms"
      by (rule "1.IH" [OF Some [unfolded r] refl refl lt "1.prems"])
    then obtain ms where "execLoop re p' s' = Some ms" ..
    with Some r lt show ?thesis by (subst execLoop.simps) simp
  qed
qed

lemma regexes_consuming:
  "list_all consuming scriptImportRegex"
  "list_all consuming styleImportRegex"
  "list_all consuming pythonImportRegex"
  by (simp_all add: scriptImportRegex_def styleImportRegex_def pythonImportRegex_def)

lemma extractImports_returns: "\<exists>importPaths. extractImports ext content = Some importPaths"
proof -
  obtain a b c where
    "execLoop scriptImportRegex None content = Some a"
    "execLoop styleImportRegex None content = Some b"
    "execLoop pythonImportRegex None content = Some c"
    using regexes_consuming [THEN execLoop_returns] by blast
  then show ?thesis
    unfolding extractImports_def by simp
qed

section \<open>What one file adds\<close>

lemma fileExists_root:
  "workspaceRoot s = workspaceRoot s' \<Longrightarrow> fileExists e s = fileExists e s'"
  by (simp add: fun_eq_iff fileExists_def)

lemma resolveImport_root:
  assumes "workspaceRoot s = workspaceRoot s'"
  shows "resolveImport e s dir ext rid ip = resolveImport e s' dir ext rid ip"
  unfolding resolveImport_def fileExists_root [OF assms] assms ..

lemma parseDependenciesFromContent_links:
  assumes "fileContent (w_obj f) = content" "w_fullPath f = fp" "w_relativePath f = rid"
  shows "parseDependenciesFromContent e s content fp rid
           = Some (s\<lparr>links := links s @ linksOf e (workspaceRoot s) f\<rparr>)"
proof -
  obtain ips where ips: "extractImports (toLowerCase (path_extname fp)) content = Some ips"
    using extractImports_returns by blast
  let ?s0 = "\<lparr>workspaceRoot = workspaceRoot s, visitedFiles = {}, nodes = [], links = [],
              ig = (\<lambda>p. False)\<rparr>"
  have r: "resolveImport e ?s0 = resolveImport e s"
    by (intro ext resolveImport_root) simp
  show ?thesis
    by (simp add: parseDependenciesFromContent_def linksOf_def assms ips r Let_def)
qed

lemma processFile_unreadable:
  "\<not> readable obj \<Longrightarrow> processFile e s fp rp name obj = Some s"
  by (auto simp: processFile_def readable_def split: sum.splits)

lemma processFile_readable:
  assumes "readable (w_obj f)"
  shows "processFile e s (w_fullPath f) (w_relativePath f) (w_name f) (w_obj f)
           = Some (s\<lparr>nodes := nodes s @ [nodeOf f],
                      links := links s @ linksOf e (workspaceRoot s) f\<rparr>)"
proof -
  from assms obtain sz content where
    st: "fs_stat (w_obj f) = Inr sz" and rd: "fs_readFile (w_obj f) = Inr content"
    by (auto simp: readable_def isl_def) (metis sum.exhaust)
  have c: "fileContent (w_obj f) = content" "statSize (w_obj f) = sz"
    by (simp_all add: fileContent_def statSize_def st rd)
  show ?thesis
    unfolding processFile_def
    by (simp add: st rd Let_def nodeOf_def c
          parseDependenciesFromContent_links [OF c(1) refl refl])
qed

section \<open>The scanner and the walk\<close>

lemma scanEntries_Cons:
  "scanEntries e dir search ((name, obj) # rest) s =
     (if excludedEntry e (workspaceRoot s) (ig s) dir name then scanEntries e dir search rest s
      else if isDirectory obj then
        (case search of
           Some err \<Rightarrow> Some (Inl err)
         | None \<Rightarrow>
             (case scanDirectory e (path_join [dir, name]) obj s of
                None \<Rightarrow> None
              | Some (Inl err) \<Rightarrow> Some (Inl err)
              | Some (Inr s') \<Rightarrow> scanEntries e dir search rest s'))
      else if isFile obj then
        (if isCodeFile name then
           (case processFile e s (path_join [dir, name])
                   (path_relative (cwd e) (workspaceRoot s) (path_join [dir, name])) name
                   (reached search obj) of
              None \<Rightarrow> None
            | Some s' \<Rightarrow> scanEntries e dir search rest s')
         else scanEntries e dir search rest s)
      else scanEntries e dir search rest s)"
  by (simp add: excludedEntry_def Let_def)

declare scanEntries.simps(2) [simp del]

lemma scanEntries_walk:
  "workspaceRoot s = root \<Longrightarrow> ig s = igf \<Longrightarrow>
   scanEntries e dir search entries s =
     Some (case listingError e root igf dir search entries of
             Some err \<Rightarrow> Inl err
           | None \<Rightarrow>
               Inr (s\<lparr>nodes := nodes s
                          @ map nodeOf (filter accepted (walkEntries e root igf dir search entries)),
                        links := links s
                          @ concat (map (linksOf e root)
                                     (filter accepted
                                        (walkEntries e root igf dir search entries)))\<rparr>))"
proof (induction e root igf dir search entries arbitrary: s rule: walkEntries.induct)
  case (1 e root igf dir search)
  then show ?case by simp
next
  case (2 e root igf dir search name err search' entries rest)
  show ?case
  proof (cases "excludedEntry e root igf dir name")
    case True
    with "2.IH"(1) [OF True "2.prems"] "2.prems" show ?thesis
      by (simp add: scanEntries_Cons split: option.splits)
  next
    case False
    show ?thesis
    proof (cases search)
      case (Some x)
      with False "2.prems" show ?thesis by (simp add: scanEntries_Cons)
    next
      case snone: None
      show ?thesis
      proof (cases err)
        case (Some x)
        with False snone "2.prems" show ?thesis
          by (simp add: scanEntries_Cons split: option.splits)
      next
        case None
        let ?sub = "walkEntries e root igf (path_join [dir, name]) search' entries"
        let ?s1 = "s\<lparr>nodes := nodes s @ map nodeOf (filter accepted ?sub),
                       links := links s @ concat (map (linksOf e root) (filter accepted ?sub))\<rparr>"
        note sub = "2.IH"(2) [OF False "2.prems"]
        show ?thesis
        proof (cases "listingError e root igf (path_join [dir, name]) search' entries")
          case (Some x)
          with False snone None sub "2.prems" show ?thesis
            by (simp add: scanEntries_Cons split: option.splits)
        next
          case lnone: None
          have s1: "workspaceRoot ?s1 = root" "ig ?s1 = igf" using "2.prems" by simp_all
          note rest = "2.IH"(3) [OF False s1]
          from False snone None lnone sub rest "2.prems" show ?thesis
            by (simp add: scanEntries_Cons split: option.splits)
        qed
      qed
    qed
  qed
next
  case (3 e root igf dir search name st rd rest)
  let ?f = "\<lparr>w_fullPath = path_join [dir, name],
             w_relativePath = path_relative (cwd e) root (path_join [dir, name]),
             w_name = name, w_obj = reached search (File st rd)\<rparr>"
  show ?case
  proof (cases "excludedEntry e root igf dir name")
    case True
    with "3.IH"(1) [OF True "3.prems"] "3.prems" show ?thesis
      by (simp add: scanEntries_Cons split: option.splits)
  next
    case False
    show ?thesis
    proof (cases "accepted ?f")
      case True
      then have code: "isCodeFile name" and rd: "readable (w_obj ?f)"
        by (simp_all add: accepted_def)
      let ?s1 = "s\<lparr>nodes := nodes s @ [nodeOf ?f], links := links s @ linksOf e root ?f\<rparr>"
      have s1: "workspaceRoot ?s1 = root" "ig ?s1 = igf" using "3.prems" by simp_all
      have pf: "processFile e s (path_join [dir, name])
                  (path_relative (cwd e) root (path_join [dir, name])) name
                  (reached search (File st rd)) = Some ?s1"
        using processFile_readable [OF rd, of e s] "3.prems" by simp
      from False True code pf "3.IH"(2) [OF False s1] "3.prems" show ?thesis
        by (simp add: scanEntries_Cons split: option.splits)
    next
      case nacc: False
      show ?thesis
      proof (cases "isCodeFile name")
        case True
        with nacc have "\<not> readable (reached search (File st rd))" by (simp add: accepted_def)
        from processFile_unreadable [OF this] False True nacc "3.IH"(2) [OF False "3.prems"] "3.prems"
        show ?thesis by (simp add: scanEntries_Cons split: option.splits)
      next
        case False2: False
        from False False2 nacc "3.IH"(2) [OF False "3.prems"] "3.prems"
        show ?thesis by (simp add: scanEntries_Cons split: option.splits)
      qed
    qed
  qed
next
  case (4 e root igf dir search name target rest)
  with "4.IH" [OF "4.prems"] show ?case
    by (simp add: scanEntries_Cons split: option.splits)
next
  case (5 e root igf dir search name rest)
  with "5.IH" [OF "5.prems"] show ?case
    by (simp add: scanEntries_Cons split: option.splits)
qed

lemma follow_not_link: "follow obj \<noteq> Inr (Symlink target)"
  by (induction obj rule: follow.induct) simp_all

lemma fs_walk_not_link: "fs_walk up segs \<noteq> Inr (Symlink target)"
proof (induction segs arbitrary: up)
  case Nil
  show ?case by (cases up) (simp_all add: follow_not_link)
next
  case (Cons seg segs)
  show ?case
    by (cases up) (auto simp: Cons split: option.splits sum.splits fsobj.splits)
qed

lemma fs_lookup_not_link: "fs_lookup e p \<noteq> Inr (Symlink target)"
  using fs_walk_not_link by (auto simp: fs_lookup_def split: sum.splits)

lemma scan_walk:
  "scan e s =
     Some (case scanError e s of
             Some err \<Rightarrow> Inl err
           | None \<Rightarrow>
               Inr (\<lparr>graph_nodes = map nodeOf (filter accepted (walkRoot e s)),
                     graph_links = concat (map (linksOf e (workspaceRoot s))
                                             (filter accepted (walkRoot e s)))\<rparr>,
                    s\<lparr>nodes := map nodeOf (filter accepted (walkRoot e s)),
                      links := concat (map (linksOf e (workspaceRoot s))
                                        (filter accepted (walkRoot e s))),
                      visitedFiles := {}\<rparr>))"
proof (cases "fs_lookup e (workspaceRoot s)")
  case (Inl err)
  then show ?thesis by (simp add: scan_def scanError_def)
next
  case (Inr obj)
  let ?s0 = "s\<lparr>nodes := [], links := [], visitedFiles := {}\<rparr>"
  show ?thesis
  proof (cases obj)
    case (File st rd)
    with Inr show ?thesis by (simp add: scan_def scanError_def)
  next
    case (Dir err search entries)
    show ?thesis
    proof (cases err)
      case None
      have "workspaceRoot ?s0 = workspaceRoot s" "ig ?s0 = ig s" by simp_all
      note w = scanEntries_walk [OF this, of e "workspaceRoot s" search entries]
      from Inr Dir None show ?thesis
        by (simp add: scan_def scanError_def walkRoot_def w split: option.splits)
    next
      case (Some x)
      with Inr Dir show ?thesis
        by (simp add: scan_def scanError_def)
    qed
  next
    case (Symlink target)
    with Inr fs_lookup_not_link show ?thesis by blast
  next
    case Other
    with Inr show ?thesis by (simp add: scan_def scanError_def)
  qed
qed

section \<open>Imports of Python files\<close>

lemma matchItems_noClose:
  "noClose items \<Longrightarrow> matchItems items prev s opens caps = Some (caps', prev', s')
     \<Longrightarrow> caps' = caps"
proof (induction items prev s opens caps arbitrary: caps' prev' s' rule: matchItems.induct)
  case (10 i k prev s opens caps)
  from "10.prems"(1) show ?case by simp
next
  case (11 k prev s opens caps)
  show ?case
  proof (cases prev)
    case None
    with "11.prems" have "matchItems k prev s opens caps = Some (caps', prev', s')"
      by simp
    with "11.prems"(1) show ?thesis by (intro "11.IH"(1) [OF None]) simp_all
  next
    case (Some c)
    with "11.prems" have "isLineTerminator c"
      and "matchItems k prev s opens caps = Some (caps', prev', s')"
      by (simp_all split: if_splits)
    with "11.prems"(1) show ?thesis by (intro "11.IH"(2) [OF Some]) simp_all
  qed
qed (fastforce split: if_splits option.splits)+

lemma word_not_dot: "in_class Word c \<Longrightarrow> c \<noteq> CHR ''.''"
  by auto

lemma matchItems_LineStart:
  "matchItems (LineStart # k) prev s opens caps = Some r
     \<Longrightarrow> matchItems k prev s opens caps = Some r"
  by (cases prev) (simp_all split: if_splits)

lemma matchItems_Lit:
  "matchItems (Lit l # k) prev s opens caps = Some r
     \<Longrightarrow> \<exists>p s1. matchItems k p s1 opens caps = Some r"
  by (auto split: if_splits)

lemma matchItems_Plus:
  "matchItems (Plus c # k) prev s opens caps = Some r \<Longrightarrow>
     \<exists>w s2 p. s = w @ s2 \<and> w \<noteq> [] \<and> list_all (in_class c) w
        \<and> matchItems k p s2 opens caps = Some r"
proof (induction s arbitrary: prev)
  case Nil
  then show ?case by simp
next
  case (Cons x xs)
  from Cons.prems have x: "in_class c x" by (simp split: if_splits)
  show ?case
  proof (cases "matchItems (Plus c # k) (Some x) xs opens caps")
    case None
    with Cons.prems x have "matchItems k (Some x) xs opens caps = Some r" by simp
    with x show ?thesis by (intro exI [of _ "[x]"] exI [of _ xs] exI [of _ "Some x"]) simp
  next
    case (Some r')
    with Cons.prems x have "r' = r" by simp
    with Some Cons.IH obtain w s2 p where
      "xs = w @ s2" "w \<noteq> []" "list_all (in_class c) w" "matchItems k p s2 opens caps = Some r"
      by blast
    with x show ?thesis
      by (intro exI [of _ "x # w"] exI [of _ s2] exI [of _ p]) simp
  qed
qed

lemma matchItems_group:
  assumes "matchItems (GroupOpen i # Plus c # GroupClose i # k) prev s opens caps = Some r"
  shows "\<exists>w s2 p. w \<noteq> [] \<and> list_all (in_class c) w
           \<and> matchItems k p s2 (opens(i \<mapsto> w @ s2)) (caps(i \<mapsto> w)) = Some r"
proof -
  from assms have "matchItems (Plus c # GroupClose i # k) prev s (opens(i \<mapsto> s)) caps = Some r"
    by simp
  from matchItems_Plus [OF this] obtain w s2 p where
    w: "s = w @ s2" "w \<noteq> []" "list_all (in_class c) w"
    and m: "matchItems (GroupClose i # k) p s2 (opens(i \<mapsto> s)) caps = Some r"
    by blast
  from m w(1) have "matchItems k p s2 (opens(i \<mapsto> w @ s2)) (caps(i \<mapsto> w)) = Some r"
    by simp
  with w show ?thesis by blast
qed

lemma python_alternative_1:
  assumes "matchItems [LineStart, Lit ''import'', Plus Space, GroupOpen 1, Plus Word, GroupClose 1]
             prev s Map.empty Map.empty = Some (m, p, s')"
  shows "identifierCapture m"
proof -
  from matchItems_Lit [OF matchItems_LineStart [OF assms]] obtain p1 s1 where
    "matchItems [Plus Space, GroupOpen 1, Plus Word, GroupClose 1] p1 s1 Map.empty Map.empty
       = Some (m, p, s')"
    by blast
  from matchItems_Plus [OF this] obtain p2 s2 where
    "matchItems [GroupOpen 1, Plus Word, GroupClose 1] p2 s2 Map.empty Map.empty = Some (m, p, s')"
    by blast
  from matchItems_group [OF this] obtain w where
    "w \<noteq> []" "list_all (in_class Word) w" "m = Map.empty(1 \<mapsto> w)"
    by auto
  then show ?thesis
    by (simp add: identifierCapture_def js_or_def truthy_def)
qed

lemma python_alternative_2:
  assumes "matchItems [LineStart, Lit ''from'', Plus Space, GroupOpen 2, Plus Word, GroupClose 2,
                       Plus Space, Lit ''import'']
             prev s Map.empty Map.empty = Some (m, p, s')"
  shows "identifierCapture m"
proof -
  from matchItems_Lit [OF matchItems_LineStart [OF assms]] obtain p1 s1 where
    "matchItems [Plus Space, GroupOpen 2, Plus Word, GroupClose 2, Plus Space, Lit ''import'']
       p1 s1 Map.empty Map.empty = Some (m, p, s')"
    by blast
  from matchItems_Plus [OF this] obtain p2 s2 where
    "matchItems [GroupOpen 2, Plus Word, GroupClose 2, Plus Space, Lit ''import'']
       p2 s2 Map.empty Map.empty = Some (m, p, s')"
    by blast
  from matchItems_group [OF this] obtain w s3 p3 where
    w: "w \<noteq> []" "list_all (in_class Word) w"
    and t: "matchItems [Plus Space, Lit ''import''] p3 s3 (Map.empty(2 \<mapsto> w @ s3))
              (Map.empty(2 \<mapsto> w)) = Some (m, p, s')"
    by blast
  have "noClose [Plus Space, Lit ''import'']" by simp
  from matchItems_noClose [OF this t] have "m = Map.empty(2 \<mapsto> w)" .
  with w show ?thesis
    by (simp add: identifierCapture_def js_or_def truthy_def)
qed

lemma matchAlternatives_python:
  assumes "matchAlternatives pythonImportRegex prev s = Some (m, p, s')"
  shows "identifierCapture m"
proof (cases "matchItems [LineStart, Lit ''import'', Plus Space, GroupOpen 1, Plus Word,
                          GroupClose 1] prev s Map.empty Map.empty")
  case None
  with assms have "matchItems [LineStart, Lit ''from'', Plus Space, GroupOpen 2, Plus Word,
                               GroupClose 2, Plus Space, Lit ''import'']
                     prev s Map.empty Map.empty = Some (m, p, s')"
    by (simp add: pythonImportRegex_def del: matchItems.simps split: option.splits)
  then show ?thesis by (rule python_alternative_2)
next
  case (Some r)
  with assms have "r = (m, p, s')"
    by (simp add: pythonImportRegex_def del: matchItems.simps)
  with Some show ?thesis by (auto simp del: matchItems.simps intro: python_alternative_1)
qed

lemma regexExec_python:
  "regexExec pythonImportRegex prev s = Some (m, p, s') \<Longrightarrow> identifierCapture m"
proof (induction s arbitrary: prev)
  case Nil
  then show ?case by (simp add: matchAlternatives_python)
next
  case (Cons x xs)
  show ?case
  proof (cases "matchAlternatives pythonImportRegex prev (x # xs)")
    case None
    with Cons show ?thesis by simp
  next
    case (Some r)
    with Cons.prems have "matchAlternatives pythonImportRegex prev (x # xs) = Some (m, p, s')"
      by simp
    then show ?thesis by (rule matchAlternatives_python)
  qed
qed

lemma execLoop_all:
  "(\<And>prev s m p s'. regexExec re prev s = Some (m, p, s') \<Longrightarrow> P m)
     \<Longrightarrow> execLoop re prev s = Some ms \<Longrightarrow> list_all P ms"
proof (induction re prev s arbitrary: ms rule: execLoop.induct)
  case (1 re prev s)
  show ?case
  proof (cases "regexExec re prev s")
    case None
    with "1.prems"(2) show ?thesis by (subst (asm) execLoop.simps) simp
  next
    case (Some r)
    obtain m p s' where r: "r = (m, p, s')" by (cases r) auto
    from "1.prems"(2) Some r obtain ms' where
      lt: "length s' < length s" and e: "execLoop re p s' = Some ms'"
      and ms: "ms = m # ms'"
      by (subst (asm) execLoop.simps) (auto split: if_splits option.splits)
    have "list_all P ms'"
      by (rule "1.IH" [OF Some [unfolded r] refl refl lt "1.prems"(1) e])
    moreover have "P m" by (rule "1.prems"(1) [OF Some [unfolded r]])
    ultimately show ?thesis using ms by simp
  qed
qed

text \<open>An import string of a Python file is a non-empty word: it has no dot to replace.\<close>

lemma python_imports_are_words:
  assumes "extractImports ''.py'' content = Some ips" "ip \<in> set ips"
  shows "\<exists>w. ip = Some w \<and> w \<noteq> [] \<and> list_all (in_class Word) w \<and> replace_dots w = w"
proof -
  from assms(1) obtain ms where ms: "execLoop pythonImportRegex None content = Some ms"
    and ips: "ips = map (\<lambda>m. js_or (m 1) (m 2)) ms"
    by (auto simp: extractImports_def)
  have "list_all identifierCapture ms"
    by (rule execLoop_all [OF _ ms]) (rule regexExec_python)
  with assms(2) ips obtain m where "identifierCapture m"
    and "ip = js_or (m 1) (m 2)"
    by (auto simp: list_all_iff)
  then obtain w where w: "ip = Some w" "w \<noteq> []" "list_all (in_class Word) w"
    by (auto simp: identifierCapture_def split: option.splits)
  from w(3) have "CHR ''.'' \<notin> set w"
    unfolding list_all_iff using word_not_dot by blast
  then have "replace_dots w = w"
    unfolding replace_dots_def by (induction w) auto
  with w show ?thesis by blast
qed

text \<open>
  So a Link of a Python file goes to a file \<^verbatim>\<open>w.py\<close> directly below the root, where
  \<^verbatim>\<open>w\<close> is a word: never to a file in a package directory.
\<close>

lemma python_links_are_flat:
  assumes "toLowerCase (path_extname (w_fullPath f)) = ''.py''"
    and "l \<in> set (linksOf e root f)"
  shows "\<exists>w. link_target l = w @ ''.py'' \<and> w \<noteq> [] \<and> list_all (in_class Word) w"
proof -
  let ?s0 = "\<lparr>workspaceRoot = root, visitedFiles = {}, nodes = [], links = [],
              ig = (\<lambda>p. False)\<rparr>"
  from assms obtain ips ip where
    ips: "extractImports ''.py'' (fileContent (w_obj f)) = Some ips" "ip \<in> set ips"
    and l: "l \<in> set (snd (resolveImport e ?s0 (path_dirname (w_fullPath f)) ''.py''
                              (w_relativePath f) ip))"
    by (auto simp: linksOf_def parseDependenciesFromContent_def Let_def split: option.splits)
  from python_imports_are_words [OF ips] obtain w where
    w: "ip = Some w" "w \<noteq> []" "list_all (in_class Word) w" "replace_dots w = w"
    by blast
  from w(2,3) have "\<not> startsWith w ''.''"
    by (cases w) (auto simp: startsWith_def dest: word_not_dot)
  with l w have "link_target l = w @ ''.py''"
    by (auto simp: resolveImport_def truthy_def Let_def split: if_splits)
  with w show ?thesis by blast
qed

section \<open>Links of a file\<close>

lemma replace_dots_not_parent:
  assumes "ip \<noteq> []" "\<not> startsWith ip ''.''"
  shows "\<not> startsWith (replace_dots ip @ ''.py'') ''..''"
proof -
  from assms obtain c cs where ip: "ip = c # cs" and c: "c \<noteq> CHR ''.''"
    by (cases ip) (auto simp: startsWith_def)
  then show ?thesis by (simp add: startsWith_def replace_dots_def)
qed

lemma startsWith_append: "startsWith t p \<Longrightarrow> startsWith (t @ x) p"
proof -
  assume a: "startsWith t p"
  then have "length (take (length p) t) = length p"
    by (simp add: startsWith_def)
  then have "length p \<le> length t"
    by simp
  with a show ?thesis by (simp add: startsWith_def)
qed

lemma probeLoop_target:
  "snd (probeLoop ex t es) = t \<or> (\<exists>x. snd (probeLoop ex t es) = t @ x)"
  by (induction es) (auto split: prod.splits)

lemma probeLoop_startsWith:
  "startsWith t p \<Longrightarrow> startsWith (snd (probeLoop ex t es)) p"
  using probeLoop_target [of ex t es] by (auto dest: startsWith_append)

lemma resolveImport_links:
  assumes "l \<in> set (snd (resolveImport e s dir ext rid ip))"
  shows "link_source l = rid \<and> \<not> startsWith (link_target l) ''..''"
proof (cases ip)
  case None
  with assms show ?thesis by (simp add: resolveImport_def truthy_def)
next
  case (Some v)
  show ?thesis
  proof (cases "v = []")
    case True
    with Some assms show ?thesis by (simp add: resolveImport_def truthy_def)
  next
    case False
    show ?thesis
    proof (cases "startsWith v ''.''")
      case True
      with Some False assms show ?thesis
        by (auto simp: resolveImport_def truthy_def Let_def split: if_splits prod.splits)
    next
      case nrel: False
      from replace_dots_not_parent [OF False nrel] Some False nrel assms show ?thesis
        by (auto simp: resolveImport_def truthy_def Let_def split: if_splits)
    qed
  qed
qed

lemma linksOf_links:
  assumes "l \<in> set (linksOf e root f)"
  shows "link_source l = w_relativePath f \<and> \<not> startsWith (link_target l) ''..''"
  using assms
  by (auto simp: linksOf_def parseDependenciesFromContent_def Let_def
           split: option.splits dest: resolveImport_links)

lemma scanResult_Inr:
  "scanResult e s = Some (Inr g) \<Longrightarrow> \<exists>s'. scan e s = Some (Inr (g, s'))"
proof -
  assume a: "scanResult e s = Some (Inr g)"
  then obtain r where r: "scan e s = Some r" and m: "map_sum id fst r = Inr g"
    by (auto simp: scanResult_def)
  from m obtain s' where "r = Inr (g, s')" by (cases r) auto
  with r show ?thesis by blast
qed

lemma scan_accumulators:
  "scan e s = Some (Inr (g, s')) \<Longrightarrow> nodes s' = graph_nodes g \<and> links s' = graph_links g"
  by (auto simp: scan_def Let_def split: option.splits sum.splits)

lemma walkRoot_accumulators:
  "walkRoot e (s\<lparr>nodes := ns, links := ls, visitedFiles := vs\<rparr>) = walkRoot e s"
  by (simp add: walkRoot_def split: sum.splits option.splits fsobj.splits)

lemma scanError_accumulators:
  "scanError e (s\<lparr>nodes := ns, links := ls, visitedFiles := vs\<rparr>) = scanError e s"
  by (simp add: scanError_def split: sum.splits option.splits fsobj.splits)

lemma projectTree_scanResult:
  "scanResult projectTree exampleScanner = Some (Inr projectGraph)"
  by code_simp

section \<open>What the scanner does in general\<close>

text \<open>A scan fails exactly with the first listing error of the walk, root or not.\<close>

lemma scan_fails_iff:
  "scan e s = Some (Inl err) \<longleftrightarrow> scanError e s = Some err"
  by (simp add: scan_walk split: option.splits)

text \<open>A scan always returns: with an error or with a graph.\<close>

lemma scan_returns:
  "\<exists>r. scan e s = Some r"
  by (simp add: scan_walk)

text \<open>The type of a Node is the extension of its name as it is written.\<close>

lemma node_type_is_extname:
  assumes "scan e s = Some (Inr (g, s'))"
  shows "list_all (\<lambda>n. node_type n = path_extname (node_name n)) (graph_nodes g)"
proof -
  from assms have "graph_nodes g = map nodeOf (filter accepted (walkRoot e s))"
    by (auto simp: scan_walk split: option.splits)
  then show ?thesis by (simp add: list_all_iff nodeOf_def)
qed

text \<open>
  Whatever \<^verbatim>\<open>fs.existsSync\<close> finds at the path of a relative import, a file or a
  directory, is the target, and no candidate is probed.
\<close>

lemma relative_import_exact:
  assumes "startsWith ip ''.''"
    and "path_relative (cwd e) (workspaceRoot s) (path_resolve (cwd e) [dir, ip]) = t"
    and "fileExists e s t" and "\<not> startsWith t ''..''"
  shows "resolveImport e s dir ext rid (Some ip)
           = ([t, t], [\<lparr>link_source = rid, link_target = t\<rparr>])"
proof -
  from assms(1) have "ip \<noteq> []" by (auto simp: startsWith_def)
  with assms show ?thesis
    by (simp add: resolveImport_def truthy_def Let_def)
qed

section \<open>The claims\<close>

text \<open>
  C1. A Python file with the dotted import \<^verbatim>\<open>from pkg.sub import y\<close> should get a Link
  to \<^verbatim>\<open>pkg/sub.py\<close> when that file exists. The scanner replaces dots by slashes, but
  its pattern captures \<^verbatim>\<open>\w+\<close> only after \<^verbatim>\<open>from\<close> and wants white space next:
  the statement is not matched at all, and the scan of a tree in which
  \<^verbatim>\<open>pkg/sub.py\<close> exists has no Link.
\<close>

theorem dotted_python_import_gets_no_link:
  "existsSync pythonTree ''/proj/pkg/sub.py''
   \<and> extractImports ''.py'' ''from pkg.sub import y'' = Some []
   \<and> scanResult pythonTree exampleScanner =
       Some (Inr \<lparr>graph_nodes =
                    [\<lparr>node_id = ''main.py'', node_name = ''main.py'', node_type = ''.py'',
                      node_size = 21, node_preview = ''from pkg.sub import y''\<rparr>,
                     \<lparr>node_id = ''pkg/sub.py'', node_name = ''sub.py'', node_type = ''.py'',
                      node_size = 0, node_preview = []\<rparr>],
                  graph_links = []\<rparr>)"
  by code_simp

text \<open>
  C2. A scan should fail only when the root cannot be listed, and skip a subdirectory
  that cannot be listed. \<^verbatim>\<open>scanDirectory\<close> does not catch the error of \<^verbatim>\<open>readdir\<close>:
  with \<^verbatim>\<open>/proj\<close> listable and \<^verbatim>\<open>/proj/locked\<close> not, the scan fails with the error of
  the subdirectory.
\<close>

theorem unlistable_subdirectory_fails_scan:
  "fs_lookup lockedTree ''/proj''
     = Inr (Dir None None [(''a.ts'', File (Inr 0) (Inr [])),
                            (''locked'', Dir (Some EACCES) None []),
                            (''b.ts'', File (Inr 0) (Inr []))])
   \<and> scanResult lockedTree exampleScanner = Some (Inl EACCES)"
  by code_simp

text \<open>
  C3. The type of a Node should be the lower-cased extension. The extension filter
  lower-cases the extension, \<^verbatim>\<open>processFile\<close> does not: \<^verbatim>\<open>Foo.TS\<close> passes the filter
  and its Node has the type \<^verbatim>\<open>.TS\<close>.
\<close>

theorem node_type_keeps_case:
  "isCodeFile ''Foo.TS''
   \<and> toLowerCase (path_extname ''Foo.TS'') = ''.ts''
   \<and> scanResult upperCaseTree exampleScanner =
       Some (Inr \<lparr>graph_nodes =
                    [\<lparr>node_id = ''Foo.TS'', node_name = ''Foo.TS'', node_type = ''.TS'',
                      node_size = 0, node_preview = []\<rparr>],
                  graph_links = []\<rparr>)"
  by code_simp

text \<open>
  C4. \<^verbatim>\<open>import x from './sub'\<close> with only \<^verbatim>\<open>sub/index.ts\<close> present should give a
  Link to \<^verbatim>\<open>sub/index.ts\<close>. \<^verbatim>\<open>fileExists\<close> is \<^verbatim>\<open>fs.existsSync\<close>, which also finds
  directories: the directory \<^verbatim>\<open>sub\<close> exists, no candidate is probed, and the Link
  goes to \<^verbatim>\<open>sub\<close>.
\<close>

theorem index_fallback_links_directory:
  "\<not> fileExists indexTree exampleScanner ''sub.ts''
   \<and> fileExists indexTree exampleScanner ''sub/index.ts''
   \<and> fileExists indexTree exampleScanner ''sub''
   \<and> resolveImport indexTree exampleScanner ''/proj'' ''.ts'' ''a.ts'' (Some ''./sub'')
       = ([''sub'', ''sub''], [\<lparr>link_source = ''a.ts'', link_target = ''sub''\<rparr>])
   \<and> map_option (map_sum id graph_links) (scanResult indexTree exampleScanner)
       = Some (Inr [\<lparr>link_source = ''a.ts'', link_target = ''sub''\<rparr>])"
  by code_simp

text \<open>
  C5. A file whose extension, lower-cased, is outside the list gets no Node, whatever
  it holds, and every other file of the walk that is read gets exactly one: the Nodes
  of a scan are, in order, those of the files of the walk whose extension is in the
  list and whose \<^verbatim>\<open>stat\<close> and \<^verbatim>\<open>readFile\<close> succeed, and so the name of every Node
  has an extension of the list.
\<close>

theorem extension_filter:
  assumes "scan e s = Some (Inr (g, s'))"
  shows "graph_nodes g
           = map nodeOf (filter (\<lambda>f. isCodeFile (w_name f) \<and> readable (w_obj f)) (walkRoot e s))
         \<and> list_all (\<lambda>n. toLowerCase (path_extname (node_name n)) \<in> set supportedExtensions)
              (graph_nodes g)"
proof -
  have acc: "accepted = (\<lambda>f. isCodeFile (w_name f) \<and> readable (w_obj f))"
    by (simp add: fun_eq_iff accepted_def)
  from assms have g: "graph_nodes g = map nodeOf (filter accepted (walkRoot e s))"
    by (auto simp: scan_walk split: option.splits)
  have "list_all (\<lambda>n. toLowerCase (path_extname (node_name n)) \<in> set supportedExtensions)
          (map nodeOf (filter accepted (walkRoot e s)))"
    by (simp add: list_all_iff accepted_def isCodeFile_def nodeOf_def)
  with g show ?thesis by (simp add: acc)
qed

theorem extension_filter_witness:
  "\<exists>s'. scan projectTree exampleScanner = Some (Inr (projectGraph, s'))
        \<and> map w_name (walkRoot projectTree exampleScanner)
            = [''README'', ''a.ts'', ''b.ts'', ''broken.ts'', ''notes.txt'', ''util.JS'']
        \<and> map node_name (graph_nodes projectGraph) = [''a.ts'', ''b.ts'', ''util.JS'']
        \<and> graph_nodes projectGraph
            = map nodeOf (filter (\<lambda>f. isCodeFile (w_name f) \<and> readable (w_obj f))
                            (walkRoot projectTree exampleScanner))"
proof -
  from scanResult_Inr [OF projectTree_scanResult] obtain s' where
    s: "scan projectTree exampleScanner = Some (Inr (projectGraph, s'))" ..
  have w: "map w_name (walkRoot projectTree exampleScanner)
             = [''README'', ''a.ts'', ''b.ts'', ''broken.ts'', ''notes.txt'', ''util.JS'']"
    by code_simp
  have n: "map node_name (graph_nodes projectGraph) = [''a.ts'', ''b.ts'', ''util.JS'']"
    by code_simp
  from extension_filter [OF s]
  have g: "graph_nodes projectGraph
             = map nodeOf (filter (\<lambda>f. isCodeFile (w_name f) \<and> readable (w_obj f))
                             (walkRoot projectTree exampleScanner))" ..
  from s w n g show ?thesis by (intro exI [of _ s'] conjI)
qed

text \<open>
  C6. In a file that is not a Python file, an import string that does not begin with
  \<^verbatim>\<open>.\<close>, such as \<^verbatim>\<open>react\<close>, gives no Link and no call of \<^verbatim>\<open>fileExists\<close>: the Links
  that \<^verbatim>\<open>parseDependenciesFromContent\<close> pushes for the file are those of its import
  strings that begin with \<^verbatim>\<open>.\<close>, and a file that has none adds no Link to the graph
  of a scan. In a Python file every import string is looked up as a module file below
  the root, with one call of \<^verbatim>\<open>fileExists\<close>.
\<close>

theorem external_import_no_link:
  assumes "toLowerCase (path_extname filePath) \<noteq> ''.py''"
    and "extractImports (toLowerCase (path_extname filePath)) content = Some importPaths"
  shows
    "parseDependenciesFromContent e s content filePath relativeId
       = Some (s\<lparr>links := links s
                 @ concat (map (\<lambda>ip. snd (resolveImport e s (path_dirname filePath)
                                            (toLowerCase (path_extname filePath)) relativeId ip))
                             (filter relativeImport importPaths))\<rparr>)
     \<and> list_all (\<lambda>ip. relativeImport ip
                     \<or> resolveImport e s (path_dirname filePath)
                          (toLowerCase (path_extname filePath)) relativeId ip = ([], []))
          importPaths
     \<and> (list_all (\<lambda>ip. \<not> relativeImport ip) importPaths
          \<longrightarrow> parseDependenciesFromContent e s content filePath relativeId = Some s)
     \<and> (list_all (\<lambda>ip. \<not> relativeImport ip) importPaths
          \<and> scan e s = Some (Inr (g, s'))
          \<and> filter accepted (walkRoot e s) = pre @ [f] @ post
          \<and> w_fullPath f = filePath \<and> fileContent (w_obj f) = content
          \<longrightarrow> graph_links g = concat (map (linksOf e (workspaceRoot s)) (pre @ post)))
     \<and> (toLowerCase (path_extname pyPath) = ''.py''
          \<and> extractImports ''.py'' pyContent = Some pyImports
          \<longrightarrow> list_all (\<lambda>ip. \<exists>w. ip = Some w
                       \<and> resolveImport e s (path_dirname pyPath) ''.py'' relativeId ip
                           = ([w @ ''.py''],
                              if fileExists e s (w @ ''.py'')
                              then [\<lparr>link_source = relativeId, link_target = w @ ''.py''\<rparr>]
                              else []))
                pyImports)"
proof -
  let ?ext = "toLowerCase (path_extname filePath)"
  let ?R = "\<lambda>s rid ip. resolveImport e s (path_dirname filePath) ?ext rid ip"
  have bare: "?R s rid ip = ([], [])" if "\<not> relativeImport ip" for s rid ip
    using that assms(1)
    by (cases ip) (simp_all add: resolveImport_def relativeImport_def truthy_def Let_def)
  have cut: "concat (map (\<lambda>ip. snd (?R s rid ip)) ips)
               = concat (map (\<lambda>ip. snd (?R s rid ip)) (filter relativeImport ips))"
    for s rid ips
    by (induction ips) (simp_all add: bare)
  have parse: "parseDependenciesFromContent e s content filePath rid
       = Some (s\<lparr>links := links s
                 @ concat (map (\<lambda>ip. snd (?R s rid ip)) (filter relativeImport importPaths))\<rparr>)"
    for s rid
    by (simp add: parseDependenciesFromContent_def Let_def assms(2) cut [of s rid importPaths])
  have each: "list_all (\<lambda>ip. relativeImport ip \<or> ?R s relativeId ip = ([], [])) importPaths"
    unfolding list_all_iff using bare by blast
  have none: "parseDependenciesFromContent e s content filePath rid = Some s"
    if "list_all (\<lambda>ip. \<not> relativeImport ip) importPaths" for s rid
  proof -
    from that have "filter relativeImport importPaths = []"
      by (simp add: list_all_iff filter_empty_conv)
    then show ?thesis by (simp add: parse)
  qed
  have graph: "graph_links g = concat (map (linksOf e (workspaceRoot s)) (pre @ post))"
    if a: "list_all (\<lambda>ip. \<not> relativeImport ip) importPaths"
      and b: "scan e s = Some (Inr (g, s'))"
      and c: "filter accepted (walkRoot e s) = pre @ [f] @ post"
      and d: "w_fullPath f = filePath" "fileContent (w_obj f) = content"
  proof -
    have "linksOf e (workspaceRoot s) f = []"
      by (simp add: linksOf_def d none [OF a])
    moreover from b have "graph_links g
        = concat (map (linksOf e (workspaceRoot s)) (filter accepted (walkRoot e s)))"
      by (auto simp: scan_walk split: option.splits)
    ultimately show ?thesis by (simp add: c)
  qed
  have py: "list_all (\<lambda>ip. \<exists>w. ip = Some w
              \<and> resolveImport e s (path_dirname pyPath) ''.py'' relativeId ip
                  = ([w @ ''.py''],
                     if fileExists e s (w @ ''.py'')
                     then [\<lparr>link_source = relativeId, link_target = w @ ''.py''\<rparr>]
                     else []))
            pyImports"
    if x: "extractImports ''.py'' pyContent = Some pyImports"
  proof -
    have "\<exists>w. ip = Some w
            \<and> resolveImport e s (path_dirname pyPath) ''.py'' relativeId ip
                = ([w @ ''.py''],
                   if fileExists e s (w @ ''.py'')
                   then [\<lparr>link_source = relativeId, link_target = w @ ''.py''\<rparr>]
                   else [])"
      if "ip \<in> set pyImports" for ip
    proof -
      from python_imports_are_words [OF x that] obtain w where
        w: "ip = Some w" "w \<noteq> []" "list_all (in_class Word) w" "replace_dots w = w"
        by blast
      from w(2,3) have "\<not> startsWith w ''.''"
        by (cases w) (auto simp: startsWith_def dest: word_not_dot)
      with w show ?thesis
        by (simp add: resolveImport_def truthy_def Let_def)
    qed
    then show ?thesis unfolding list_all_iff by blast
  qed
  from parse each none graph py show ?thesis by blast
qed

theorem external_import_no_link_witness:
  "toLowerCase (path_extname ''/proj/a.ts'') \<noteq> ''.py''
   \<and> extractImports (toLowerCase (path_extname ''/proj/a.ts'')) react_a_content
       = Some [Some ''react'', Some ''./b'']
   \<and> fileExists reactTree exampleScanner ''react.py''
   \<and> fileExists reactTree exampleScanner ''react.ts''
   \<and> parseDependenciesFromContent reactTree exampleScanner react_a_content ''/proj/a.ts'' ''a.ts''
       = Some (exampleScanner\<lparr>links := [\<lparr>link_source = ''a.ts'', link_target = ''b.ts''\<rparr>]\<rparr>)
   \<and> resolveImport reactTree exampleScanner ''/proj'' ''.ts'' ''a.ts'' (Some ''react'') = ([], [])
   \<and> toLowerCase (path_extname ''/proj/c.js'') \<noteq> ''.py''
   \<and> extractImports (toLowerCase (path_extname ''/proj/c.js'')) react_c_content
       = Some [Some ''react'']
   \<and> parseDependenciesFromContent reactTree exampleScanner react_c_content ''/proj/c.js'' ''c.js''
       = Some exampleScanner
   \<and> filter accepted (walkRoot reactTree exampleScanner)
       = [react_a, react_b] @ [react_c] @ [react_main, react_py, react_ts]
   \<and> (\<exists>g s'. scan reactTree exampleScanner = Some (Inr (g, s'))
         \<and> graph_links g
             = concat (map (linksOf reactTree (workspaceRoot exampleScanner))
                         ([react_a, react_b] @ [react_main, react_py, react_ts])))
   \<and> map_option (map_sum id graph_links) (scanResult reactTree exampleScanner)
       = Some (Inr [\<lparr>link_source = ''a.ts'', link_target = ''b.ts''\<rparr>,
                    \<lparr>link_source = ''main.py'', link_target = ''react.py''\<rparr>])"
proof -
  have a: "toLowerCase (path_extname ''/proj/a.ts'') \<noteq> ''.py''"
    by code_simp
  have b: "extractImports (toLowerCase (path_extname ''/proj/a.ts'')) react_a_content
             = Some [Some ''react'', Some ''./b'']"
    by code_simp
  have c: "fileExists reactTree exampleScanner ''react.py''"
    "fileExists reactTree exampleScanner ''react.ts''"
    by code_simp+
  have d: "filter relativeImport [Some ''react'', Some ''./b''] = [Some ''./b'']"
    "\<not> relativeImport (Some ''react'')" "relativeImport (Some ''./b'')"
    by code_simp+
  have r: "snd (resolveImport reactTree exampleScanner (path_dirname ''/proj/a.ts'')
                  (toLowerCase (path_extname ''/proj/a.ts'')) ''a.ts'' (Some ''./b''))
             = [\<lparr>link_source = ''a.ts'', link_target = ''b.ts''\<rparr>]"
    by code_simp
  have p: "path_dirname ''/proj/a.ts'' = ''/proj''" "toLowerCase (path_extname ''/proj/a.ts'') = ''.ts''"
    by code_simp+
  have l: "links exampleScanner = []"
    by (simp add: exampleScanner_def)
  have g: "map_option (map_sum id graph_links) (scanResult reactTree exampleScanner)
             = Some (Inr [\<lparr>link_source = ''a.ts'', link_target = ''b.ts''\<rparr>,
                          \<lparr>link_source = ''main.py'', link_target = ''react.py''\<rparr>])"
    by code_simp
  note inst = external_import_no_link [OF a b, of reactTree exampleScanner "''a.ts''"]
  from inst [THEN conjunct1]
  have x: "parseDependenciesFromContent reactTree exampleScanner react_a_content
                    ''/proj/a.ts'' ''a.ts''
       = Some (exampleScanner\<lparr>links := [\<lparr>link_source = ''a.ts'', link_target = ''b.ts''\<rparr>]\<rparr>)"
    by (simp only: d(1) list.map concat.simps append_Nil append_Nil2 r l)
  from inst [THEN conjunct2, THEN conjunct1] d(2)
  have y: "resolveImport reactTree exampleScanner ''/proj'' ''.ts'' ''a.ts'' (Some ''react'') = ([], [])"
    by (simp add: p)
  have a': "toLowerCase (path_extname ''/proj/c.js'') \<noteq> ''.py''"
    by code_simp
  have b': "extractImports (toLowerCase (path_extname ''/proj/c.js'')) react_c_content
              = Some [Some ''react'']"
    by code_simp
  have n: "list_all (\<lambda>ip. \<not> relativeImport ip) [Some ''react'']"
    using d(2) by simp
  have w: "filter accepted (walkRoot reactTree exampleScanner)
             = [react_a, react_b] @ [react_c] @ [react_main, react_py, react_ts]"
    by code_simp
  have f: "w_fullPath react_c = ''/proj/c.js''" "fileContent (w_obj react_c) = react_c_content"
    by (simp_all add: react_c_def fileContent_def)
  have "scanError reactTree exampleScanner = None"
    by code_simp
  then obtain g0 s1 where sc: "scan reactTree exampleScanner = Some (Inr (g0, s1))"
    by (simp add: scan_walk)
  note inst' = external_import_no_link [OF a' b', of reactTree exampleScanner "''c.js''" g0 s1
      "[react_a, react_b]" react_c "[react_main, react_py, react_ts]"]
  from inst' [THEN conjunct2, THEN conjunct2, THEN conjunct1] n
  have z: "parseDependenciesFromContent reactTree exampleScanner react_c_content ''/proj/c.js'' ''c.js''
             = Some exampleScanner" ..
  from inst' [THEN conjunct2, THEN conjunct2, THEN conjunct2, THEN conjunct1] n sc w f
  have "graph_links g0
          = concat (map (linksOf reactTree (workspaceRoot exampleScanner))
                      ([react_a, react_b] @ [react_main, react_py, react_ts]))"
    by blast
  with sc have v: "\<exists>g s'. scan reactTree exampleScanner = Some (Inr (g, s'))
         \<and> graph_links g
             = concat (map (linksOf reactTree (workspaceRoot exampleScanner))
                         ([react_a, react_b] @ [react_main, react_py, react_ts]))"
    by blast
  from a b c x y a' b' z w v g show ?thesis by (intro conjI)
qed

text \<open>
  C7. No Link of a scan has a target that begins with \<^verbatim>\<open>..\<close>: a relative import whose
  path relative to the root begins with \<^verbatim>\<open>..\<close> gives no Link.
\<close>

theorem links_stay_below_root:
  "(scan e s = Some (Inr (g, s'))
      \<longrightarrow> (\<forall>l \<in> set (graph_links g). \<not> startsWith (link_target l) ''..''))
   \<and> (startsWith importPath ''.''
       \<and> startsWith (path_relative (cwd e) (workspaceRoot s)
                        (path_resolve (cwd e) [dir, importPath])) ''..''
      \<longrightarrow> snd (resolveImport e s dir ext relativeId (Some importPath)) = [])"
proof (intro conjI impI ballI)
  fix l
  assume "scan e s = Some (Inr (g, s'))" and "l \<in> set (graph_links g)"
  then obtain f where "l \<in> set (linksOf e (workspaceRoot s) f)"
    by (auto simp: scan_walk split: option.splits)
  then show "\<not> startsWith (link_target l) ''..''"
    by (simp add: linksOf_links)
next
  assume a: "startsWith importPath ''.''
      \<and> startsWith (path_relative (cwd e) (workspaceRoot s)
                       (path_resolve (cwd e) [dir, importPath])) ''..''"
  then have ne: "importPath \<noteq> []" by (auto simp: startsWith_def)
  let ?t0 = "path_relative (cwd e) (workspaceRoot s) (path_resolve (cwd e) [dir, importPath])"
  from a have "startsWith (snd (probeLoop (fileExists e s) ?t0 probeExtensions)) ''..''"
    by (simp add: probeLoop_startsWith)
  with a ne show "snd (resolveImport e s dir ext relativeId (Some importPath)) = []"
    by (auto simp: resolveImport_def truthy_def Let_def split: prod.splits)
qed

theorem links_stay_below_root_witness:
  "\<exists>s'. scan projectTree exampleScanner = Some (Inr (projectGraph, s'))
        \<and> map link_target (graph_links projectGraph) = [''b.ts'', ''README'', ''a.ts'']
        \<and> list_all (\<lambda>l. \<not> startsWith (link_target l) ''..'') (graph_links projectGraph)
        \<and> startsWith ''../outside'' ''.''
        \<and> path_relative ''/'' ''/proj'' (path_resolve ''/'' [''/proj'', ''../outside''])
            = ''../outside''
        \<and> fileExists projectTree exampleScanner ''../outside.ts''
        \<and> snd (resolveImport projectTree exampleScanner ''/proj'' ''.ts'' ''a.ts''
                  (Some ''../outside'')) = []"
proof -
  from scanResult_Inr [OF projectTree_scanResult] obtain s' where
    s: "scan projectTree exampleScanner = Some (Inr (projectGraph, s'))" ..
  have t: "map link_target (graph_links projectGraph) = [''b.ts'', ''README'', ''a.ts'']"
    by code_simp
  have p: "startsWith ''../outside'' ''.''"
    "path_relative ''/'' ''/proj'' (path_resolve ''/'' [''/proj'', ''../outside'']) = ''../outside''"
    "fileExists projectTree exampleScanner ''../outside.ts''"
    "startsWith ''../outside'' ''..''"
    by code_simp+
  have c: "cwd projectTree = ''/''" "workspaceRoot exampleScanner = ''/proj''"
    by (simp_all add: projectTree_def exampleScanner_def)
  note inst = links_stay_below_root
         [of projectTree exampleScanner projectGraph s' "''../outside''" "''/proj''"
             "''.ts''" "''a.ts''"]
  from inst s have "\<forall>l \<in> set (graph_links projectGraph). \<not> startsWith (link_target l) ''..''"
    by blast
  then have "list_all (\<lambda>l. \<not> startsWith (link_target l) ''..'') (graph_links projectGraph)"
    by (simp add: list_all_iff)
  moreover from inst p c
  have "snd (resolveImport projectTree exampleScanner ''/proj'' ''.ts'' ''a.ts''
               (Some ''../outside'')) = []"
    by simp
  ultimately show ?thesis using s t p by (intro exI [of _ s'] conjI)
qed

text \<open>
  C8. A second scan of the same tree gives the same graph: \<^verbatim>\<open>scan\<close> resets the
  accumulators (it assigns new arrays, so the graph that an earlier call returned is
  not touched), its result does not depend on what they held, and a scan run on the
  scanner that a first scan left behind returns the graph of the first.
\<close>

theorem scan_twice:
  "(scan e s = Some (Inr (g, s')) \<longrightarrow> scan e s' = Some (Inr (g, s')))
   \<and> scanResult e (s\<lparr>nodes := ns, links := ls, visitedFiles := vs\<rparr>) = scanResult e s"
proof (intro conjI impI)
  let ?N = "map nodeOf (filter accepted (walkRoot e s))"
  let ?L = "concat (map (linksOf e (workspaceRoot s)) (filter accepted (walkRoot e s)))"
  assume a: "scan e s = Some (Inr (g, s'))"
  then have ok: "scanError e s = None"
    and g: "g = \<lparr>graph_nodes = ?N, graph_links = ?L\<rparr>"
    and s': "s' = s\<lparr>nodes := ?N, links := ?L, visitedFiles := {}\<rparr>"
    by (auto simp: scan_walk split: option.splits)
  have "scanError e s' = None" "walkRoot e s' = walkRoot e s" "workspaceRoot s' = workspaceRoot s"
    unfolding s' by (simp_all add: scanError_accumulators walkRoot_accumulators ok)
  then show "scan e s' = Some (Inr (g, s'))"
    by (simp add: scan_walk [of e s'] g) (simp add: s')
next
  show "scanResult e (s\<lparr>nodes := ns, links := ls, visitedFiles := vs\<rparr>) = scanResult e s"
    by (simp add: scanResult_def scan_walk scanError_accumulators walkRoot_accumulators
             split: option.splits)
qed

theorem scan_twice_witness:
  "\<exists>s'. scan projectTree exampleScanner = Some (Inr (projectGraph, s'))
        \<and> scan projectTree s' = Some (Inr (projectGraph, s'))
        \<and> nodes s' = graph_nodes projectGraph
        \<and> nodes s' \<noteq> []"
proof -
  from scanResult_Inr [OF projectTree_scanResult] obtain s' where
    s: "scan projectTree exampleScanner = Some (Inr (projectGraph, s'))" ..
  then have n: "nodes s' = graph_nodes projectGraph"
    by (simp add: scan_accumulators)
  have "graph_nodes projectGraph \<noteq> []" by (simp add: projectGraph_def)
  with n scan_twice [of projectTree exampleScanner projectGraph s'] s
  show ?thesis by (intro exI [of _ s']) simp
qed

text \<open>
  C9. Let every directory of the walk be listable, and let exactly one of the files
  that the walk reaches and the extension filter keeps fail to stat or read. Then
  \<^verbatim>\<open>processFile\<close> returns on that file without an error and leaves the scanner as it
  was; the scan completes, the Nodes are those of the other files, and the Links are
  those of the other files: the failed file adds no Node and no Link.
\<close>

theorem unreadable_file_is_isolated:
  assumes "scanError e s = None"
    and "filter (\<lambda>x. isCodeFile (w_name x)) (walkRoot e s) = pre @ [f] @ post"
    and "\<not> readable (w_obj f)"
    and "list_all (\<lambda>x. readable (w_obj x)) (pre @ post)"
  shows "processFile e s0 (w_fullPath f) (w_relativePath f) (w_name f) (w_obj f) = Some s0
         \<and> (\<exists>g s'. scan e s = Some (Inr (g, s'))
                \<and> graph_nodes g = map nodeOf (pre @ post)
                \<and> graph_links g = concat (map (linksOf e (workspaceRoot s)) (pre @ post)))"
proof -
  have "accepted = (\<lambda>x. isCodeFile (w_name x) \<and> readable (w_obj x))"
    by (simp add: fun_eq_iff accepted_def)
  then have "filter accepted (walkRoot e s)
          = filter (\<lambda>x. readable (w_obj x)) (filter (\<lambda>x. isCodeFile (w_name x)) (walkRoot e s))"
    by (simp add: conj_commute)
  also have "\<dots> = filter (\<lambda>x. readable (w_obj x)) (pre @ [f] @ post)"
    by (simp only: assms(2))
  also have "\<dots> = pre @ post"
    using assms(3,4) by (simp add: list_all_iff)
  finally have "\<exists>g s'. scan e s = Some (Inr (g, s'))
                \<and> graph_nodes g = map nodeOf (pre @ post)
                \<and> graph_links g = concat (map (linksOf e (workspaceRoot s)) (pre @ post))"
    by (simp add: scan_walk assms(1))
  with processFile_unreadable [OF assms(3)] show ?thesis by simp
qed

theorem unreadable_file_is_isolated_witness:
  "scanError projectTree exampleScanner = None
   \<and> filter (\<lambda>x. isCodeFile (w_name x)) (walkRoot projectTree exampleScanner)
       = [project_a, project_b] @ [project_broken] @ [project_util]
   \<and> \<not> readable (w_obj project_broken)
   \<and> list_all (\<lambda>x. readable (w_obj x)) ([project_a, project_b] @ [project_util])
   \<and> processFile projectTree exampleScanner (w_fullPath project_broken)
         (w_relativePath project_broken) (w_name project_broken) (w_obj project_broken)
       = Some exampleScanner
   \<and> (\<exists>g s'. scan projectTree exampleScanner = Some (Inr (g, s'))
          \<and> graph_nodes g = map nodeOf ([project_a, project_b] @ [project_util])
          \<and> graph_links g
              = concat (map (linksOf projectTree (workspaceRoot exampleScanner))
                          ([project_a, project_b] @ [project_util])))"
proof -
  have a: "scanError projectTree exampleScanner = None"
    by code_simp
  have b: "filter (\<lambda>x. isCodeFile (w_name x)) (walkRoot projectTree exampleScanner)
             = [project_a, project_b] @ [project_broken] @ [project_util]"
    by code_simp
  have c: "\<not> readable (w_obj project_broken)"
    by code_simp
  have d: "list_all (\<lambda>x. readable (w_obj x)) ([project_a, project_b] @ [project_util])"
    by code_simp
  from unreadable_file_is_isolated [OF a b c d, of exampleScanner] a b c d
  show ?thesis by (intro conjI) simp_all
qed

text \<open>
  C10. In the graph of a scan the source of every Link is the id of a Node of the
  graph. The target need not be: in the example project the Link from \<^verbatim>\<open>a.ts\<close> to
  the file \<^verbatim>\<open>README\<close>, which has no extension, has no Node for its target.
\<close>

theorem link_sources_are_nodes:
  "(scan e s = Some (Inr (g, s'))
      \<longrightarrow> (\<forall>l \<in> set (graph_links g). \<exists>n \<in> set (graph_nodes g). node_id n = link_source l))
   \<and> (\<exists>e0 s0 g0 s1. scan e0 s0 = Some (Inr (g0, s1))
          \<and> (\<exists>l \<in> set (graph_links g0). \<forall>n \<in> set (graph_nodes g0). node_id n \<noteq> link_target l))"
proof (intro conjI impI ballI)
  fix l
  assume "scan e s = Some (Inr (g, s'))" and "l \<in> set (graph_links g)"
  then obtain f where f: "f \<in> set (walkRoot e s)" "accepted f"
    and l: "l \<in> set (linksOf e (workspaceRoot s) f)"
    and n: "graph_nodes g = map nodeOf (filter accepted (walkRoot e s))"
    by (auto simp: scan_walk split: option.splits)
  from f n have "nodeOf f \<in> set (graph_nodes g)" by simp
  moreover from l have "node_id (nodeOf f) = link_source l"
    by (simp add: linksOf_links nodeOf_def)
  ultimately show "\<exists>n \<in> set (graph_nodes g). node_id n = link_source l" ..
next
  from scanResult_Inr [OF projectTree_scanResult] obtain s1 where
    s: "scan projectTree exampleScanner = Some (Inr (projectGraph, s1))" ..
  have "\<exists>l \<in> set (graph_links projectGraph).
          \<forall>n \<in> set (graph_nodes projectGraph). node_id n \<noteq> link_target l"
    by (simp add: projectGraph_def)
  with s show "\<exists>e0 s0 g0 s1. scan e0 s0 = Some (Inr (g0, s1))
          \<and> (\<exists>l \<in> set (graph_links g0). \<forall>n \<in> set (graph_nodes g0). node_id n \<noteq> link_target l)"
    by blast
qed

theorem link_sources_are_nodes_witness:
  "\<exists>s'. scan projectTree exampleScanner = Some (Inr (projectGraph, s'))
        \<and> map link_source (graph_links projectGraph) = [''a.ts'', ''a.ts'', ''src/util.JS'']
        \<and> map node_id (graph_nodes projectGraph) = [''a.ts'', ''b.ts'', ''src/util.JS'']
        \<and> list_all (\<lambda>l. link_source l \<in> node_id ` set (graph_nodes projectGraph))
             (graph_links projectGraph)"
proof -
  from scanResult_Inr [OF projectTree_scanResult] obtain s' where
    s: "scan projectTree exampleScanner = Some (Inr (projectGraph, s'))" ..
  have a: "map link_source (graph_links projectGraph) = [''a.ts'', ''a.ts'', ''src/util.JS'']"
    "map node_id (graph_nodes projectGraph) = [''a.ts'', ''b.ts'', ''src/util.JS'']"
    by (simp_all add: projectGraph_def)
  from link_sources_are_nodes [of projectTree exampleScanner projectGraph s'] s
  have "\<forall>l \<in> set (graph_links projectGraph).
          \<exists>n \<in> set (graph_nodes projectGraph). node_id n = link_source l"
    by blast
  then have "list_all (\<lambda>l. link_source l \<in> node_id ` set (graph_nodes projectGraph))
               (graph_links projectGraph)"
    unfolding list_all_iff by (metis imageI)
  with s a show ?thesis by (intro exI [of _ s'] conjI)
qed

end
